theory Spec2Isabelle
  imports Complex_Main "HOL-Library.Multiset" "HOL-Library.Char_ord" "HOL-Library.List_Lexorder"
begin

section \<open>Vocabulary of the dependency-tree RNN language model\<close>

text \<open>
  A shallow embedding of \<^verbatim>\<open>Vocabulary.cpp\<close>. The header \<^verbatim>\<open>Vocabulary.h\<close> is not among the
  sources, so the layout of \<^verbatim>\<open>VocabWord\<close> and of the members of \<^verbatim>\<open>Vocabulary\<close> is read off
  the way \<^verbatim>\<open>Vocabulary.cpp\<close> uses them.

  C++ \<^verbatim>\<open>int\<close> values are modelled as \<^typ>\<open>int\<close>; the width matters for the constant
  \<^verbatim>\<open>INT_MAX\<close> only. Values of type \<^verbatim>\<open>double\<close> are kept abstract: the type variable \<open>'f\<close>
  stands for them and a record \<open>double_ops\<close> supplies the arithmetic that the code
  performs on them, so that what is proved below about the class assignment holds
  whatever the floating-point arithmetic computes.

  A member function takes the vocabulary and returns the vocabulary it leaves behind,
  or an \<open>error\<close> where the C++ program stops or has no defined behaviour.
\<close>

subsection \<open>Data\<close>

record 'f VocabWord =
  word :: string
  cn :: int
  prob :: 'f
  classIndex :: int

record 'f double_ops =
  d_of_int :: "int \<Rightarrow> 'f"
  d_add :: "'f \<Rightarrow> 'f \<Rightarrow> 'f"
  d_div :: "'f \<Rightarrow> 'f \<Rightarrow> 'f"
  d_sqrt :: "'f \<Rightarrow> 'f"
  d_gt :: "'f \<Rightarrow> 'f \<Rightarrow> bool"

record 'f Vocabulary =
  m_vocabularyStorage :: "'f VocabWord list"
  m_mapWord2Index :: "string \<rightharpoonup> int"
  m_mapIndex2Word :: "int \<rightharpoonup> string"
  m_mapWord2Class :: "string \<rightharpoonup> int"
  m_classes :: "int set"
  m_classWords :: "int list list"
  m_numClasses :: int
  m_useClassFile :: bool

text \<open>
  What stops a member function: an access outside a vector (undefined behaviour in
  C++), a \<^verbatim>\<open>resize\<close> to a negative size, a failed \<^verbatim>\<open>assert\<close>, and input that
  \<^verbatim>\<open>fscanf\<close> cannot convert (the variables it should have set stay uninitialised).
\<close>

datatype error = OutOfRange | BadAlloc | AssertionFailed | ScanFailed

definition INT_MAX :: int where
  "INT_MAX = 2147483647"

definition eos :: string where
  "eos = ''</s>''"

definition GetVocabularySize :: "'f Vocabulary \<Rightarrow> int" where
  "GetVocabularySize v = int (length (m_vocabularyStorage v))"

definition empty_vocabulary :: "int \<Rightarrow> bool \<Rightarrow> 'f Vocabulary" where
  "empty_vocabulary n u =
     \<lparr>m_vocabularyStorage = [], m_mapWord2Index = Map.empty, m_mapIndex2Word = Map.empty,
      m_mapWord2Class = Map.empty, m_classes = {}, m_classWords = [],
      m_numClasses = n, m_useClassFile = u\<rparr>"

text \<open>
  An instance of the arithmetic for evaluating the functions on concrete inputs: real
  numbers in the place of \<^verbatim>\<open>double\<close>.
\<close>

definition ideal_double :: "real double_ops" where
  "ideal_double = \<lparr>d_of_int = real_of_int, d_add = (+), d_div = (/), d_sqrt = sqrt,
                    d_gt = (\<lambda>a b. a > b)\<rparr>"

subsection \<open>Lookup and insertion\<close>

definition SearchWordInVocabulary :: "'f Vocabulary \<Rightarrow> string \<Rightarrow> int" where
  "SearchWordInVocabulary v w =
     (case m_mapWord2Index v w of None \<Rightarrow> - 1 | Some i \<Rightarrow> i)"

text \<open>
  Whether \<open>i\<close> is a position of the vector \<open>xs\<close>. In \<open>AddWordToVocabulary\<close> the new entry
  is \<^verbatim>\<open>VocabWord()\<close> with the word, the count 1 and the probability \<^verbatim>\<open>0.0\<close> (written
  \<open>d_of_int ops 0\<close>) set; its class index is taken as 0, the value-initialised one.
\<close>

definition in_range :: "'a list \<Rightarrow> int \<Rightarrow> bool" where
  "in_range xs i = (0 \<le> i \<and> i < int (length xs))"

definition AddWordToVocabulary ::
  "'f double_ops \<Rightarrow> string \<Rightarrow> 'f Vocabulary \<Rightarrow> error + (int \<times> 'f Vocabulary)" where
  "AddWordToVocabulary ops w v =
     (let index = SearchWordInVocabulary v w in
      if index = - 1 then
        (let e = \<lparr>word = w, cn = 1, prob = d_of_int ops 0, classIndex = 0\<rparr>;
             index' = int (length (m_vocabularyStorage v))
         in Inr (index',
                 v\<lparr>m_vocabularyStorage := m_vocabularyStorage v @ [e],
                   m_mapWord2Index := (m_mapWord2Index v)(w \<mapsto> index'),
                   m_mapIndex2Word := (m_mapIndex2Word v)(index' \<mapsto> w)\<rparr>))
      else if in_range (m_vocabularyStorage v) index then
        (let s = m_vocabularyStorage v; i = nat index
         in Inr (index, v\<lparr>m_vocabularyStorage := s[i := (s ! i)\<lparr>cn := cn (s ! i) + 1\<rparr>]\<rparr>))
      else Inl OutOfRange)"

definition SetWordCount :: "string \<Rightarrow> int \<Rightarrow> 'f Vocabulary \<Rightarrow> error + (bool \<times> 'f Vocabulary)" where
  "SetWordCount w wordCount v =
     (let index = SearchWordInVocabulary v w in
      if index > - 1 then
        (if in_range (m_vocabularyStorage v) index then
           (let s = m_vocabularyStorage v; i = nat index
            in Inr (True, v\<lparr>m_vocabularyStorage := s[i := (s ! i)\<lparr>cn := wordCount\<rparr>]\<rparr>))
         else Inl OutOfRange)
      else Inr (False, v))"

text \<open>Feeding a sequence of tokens to \<open>AddWordToVocabulary\<close>, one call per token.\<close>

fun add_words :: "'f double_ops \<Rightarrow> string list \<Rightarrow> 'f Vocabulary \<Rightarrow> error + 'f Vocabulary" where
  "add_words ops [] v = Inr v"
| "add_words ops (w # ws) v =
     (case AddWordToVocabulary ops w v of
        Inl e \<Rightarrow> Inl e
      | Inr (_, v') \<Rightarrow> add_words ops ws v')"

subsection \<open>Sorting by frequency\<close>

definition OrderWordCounts :: "'f VocabWord \<Rightarrow> 'f VocabWord \<Rightarrow> bool" where
  "OrderWordCounts a b = (cn a > cn b)"

text \<open>
  \<^verbatim>\<open>std::sort\<close> returns some arrangement of the vector that is ordered by the comparison;
  the order of elements that compare equal is not fixed. It is modelled by insertion
  sort, which keeps such elements in their order. Where the counts are pairwise
  different only one ordered arrangement exists (lemma \<open>descending_unique\<close> below), and
  the inputs on which the sort is evaluated below are of this kind.
\<close>

fun sort_insert :: "('a \<Rightarrow> 'a \<Rightarrow> bool) \<Rightarrow> 'a \<Rightarrow> 'a list \<Rightarrow> 'a list" where
  "sort_insert lt x [] = [x]"
| "sort_insert lt x (y # ys) = (if lt y x then y # sort_insert lt x ys else x # y # ys)"

fun std_sort :: "('a \<Rightarrow> 'a \<Rightarrow> bool) \<Rightarrow> 'a list \<Rightarrow> 'a list" where
  "std_sort lt [] = []"
| "std_sort lt (x # xs) = sort_insert lt x (std_sort lt xs)"

text \<open>The loop that rebuilds the two maps, started at position \<open>index\<close>.\<close>

fun rebuild_maps ::
  "int \<Rightarrow> 'f VocabWord list \<Rightarrow> (string \<rightharpoonup> int) \<times> (int \<rightharpoonup> string) \<Rightarrow>
   (string \<rightharpoonup> int) \<times> (int \<rightharpoonup> string)" where
  "rebuild_maps index [] m = m"
| "rebuild_maps index (e # es) m =
     rebuild_maps (index + 1) es ((fst m)(word e \<mapsto> index), (snd m)(index \<mapsto> word e))"

definition SortVocabularyByFrequency :: "'f Vocabulary \<Rightarrow> error + 'f Vocabulary" where
  "SortVocabularyByFrequency v =
     (let indexEos = SearchWordInVocabulary v eos; s = m_vocabularyStorage v in
      if \<not> in_range s indexEos then Inl OutOfRange
      else
        (let i = nat indexEos;
             countEos = cn (s ! i);
             s1 = s[i := (s ! i)\<lparr>cn := INT_MAX\<rparr>];
             s2 = std_sort OrderWordCounts s1;
             s3 = s2[i := (s2 ! i)\<lparr>cn := countEos\<rparr>];
             m = rebuild_maps 0 s3 (Map.empty, Map.empty)
         in Inr (v\<lparr>m_vocabularyStorage := s3, m_mapWord2Index := fst m,
                   m_mapIndex2Word := snd m\<rparr>)))"

subsection \<open>Reading word classes from a file\<close>

text \<open>
  The class file is represented by what the loop over \<^verbatim>\<open>fscanf(fin, "%s%d", w, &clnum)\<close>
  reads from it: the sequence of its (word, class) pairs; \<open>None\<close> is a file that
  \<^verbatim>\<open>fopen\<close> cannot open. Lines on which \<^verbatim>\<open>%d\<close> finds no number are outside this model.

  The function returns \<^verbatim>\<open>false\<close> after printing a message, or \<^verbatim>\<open>true\<close>; the model returns the
  message (\<open>None\<close> for \<^verbatim>\<open>true\<close>) together with the vocabulary as the call leaves it.
\<close>

datatype read_error = UnableToOpen | StartTokenInVocab | EosNotPresent | EmptyClassFile

type_synonym class_file = "(string \<times> int) list"

text \<open>\<^verbatim>\<open>std::set<std::string>\<close>: an ordered list without repetitions.\<close>

definition set_insert :: "string \<Rightarrow> string list \<Rightarrow> string list" where
  "set_insert w ws = (if w \<in> set ws then ws else insort w ws)"

record read_locals =
  eos_class :: int
  max_class :: int
  words :: "string list"

fun read_pairs ::
  "class_file \<Rightarrow> 'f Vocabulary \<times> read_locals \<Rightarrow> bool \<times> 'f Vocabulary \<times> read_locals" where
  "read_pairs [] (v, l) = (True, v, l)"
| "read_pairs ((w, clnum) # rest) (v, l) =
     (if w = ''<s>'' then (False, v, l)
      else read_pairs rest
        (v\<lparr>m_mapWord2Class := (m_mapWord2Class v)(w \<mapsto> clnum),
           m_classes := insert clnum (m_classes v)\<rparr>,
         l\<lparr>max_class := (if clnum > max_class l then clnum else max_class l),
           eos_class := (if w = eos then clnum else eos_class l),
           words := set_insert w (words l)\<rparr>))"

text \<open>\<^verbatim>\<open>operator[]\<close> of a map: a key that is absent is first entered with the value 0.\<close>

definition subscript :: "(string \<rightharpoonup> int) \<Rightarrow> string \<Rightarrow> int \<times> (string \<rightharpoonup> int)" where
  "subscript m w = (case m w of None \<Rightarrow> (0, m(w \<mapsto> 0)) | Some c \<Rightarrow> (c, m))"

fun swap_classes :: "string list \<Rightarrow> int \<Rightarrow> int \<Rightarrow> (string \<rightharpoonup> int) \<Rightarrow> (string \<rightharpoonup> int)" where
  "swap_classes [] ec mc m = m"
| "swap_classes (w # ws) ec mc m =
     (let (c, m1) = subscript m w in
      if c = ec then swap_classes ws ec mc (m1(w \<mapsto> mc))
      else
        (let (c', m2) = subscript m1 w in
         if c' = mc then swap_classes ws ec mc (m2(w \<mapsto> ec))
         else swap_classes ws ec mc m2))"

definition initial_locals :: read_locals where
  "initial_locals = \<lparr>eos_class = - 1, max_class = - 1, words = []\<rparr>"

definition ReadClasses :: "class_file option \<Rightarrow> 'f Vocabulary \<Rightarrow> read_error option \<times> 'f Vocabulary" where
  "ReadClasses fin v =
     (case fin of
        None \<Rightarrow> (Some UnableToOpen, v)
      | Some pairs \<Rightarrow>
          (let (ok, v1, l) = read_pairs pairs (v, initial_locals) in
           if \<not> ok then (Some StartTokenInVocab, v1)
           else if eos_class l = - 1 then (Some EosNotPresent, v1)
           else if dom (m_mapWord2Class v1) = {} then (Some EmptyClassFile, v1)
           else (None, v1\<lparr>m_mapWord2Class :=
                   swap_classes (words l) (eos_class l) (max_class l) (m_mapWord2Class v1)\<rparr>)))"

text \<open>
  Notions for stating what \<open>ReadClasses\<close> does: the exchange of two class ids, the
  vocabulary after the pairs \<open>ps\<close> have been entered in order (a later pair of a word
  overriding an earlier one), and the pairs of a file that come before the first \<^verbatim>\<open><s>\<close>.
\<close>

definition swap_id :: "int \<Rightarrow> int \<Rightarrow> int \<Rightarrow> int" where
  "swap_id ec mc c = (if c = ec then mc else if c = mc then ec else c)"

definition store_pairs :: "class_file \<Rightarrow> 'f Vocabulary \<Rightarrow> 'f Vocabulary" where
  "store_pairs ps v =
     v\<lparr>m_mapWord2Class := m_mapWord2Class v ++ map_of (rev ps),
       m_classes := m_classes v \<union> snd ` set ps\<rparr>"

definition before_start_token :: "class_file \<Rightarrow> class_file" where
  "before_start_token ps = takeWhile (\<lambda>p. fst p \<noteq> ''<s>'') ps"

text \<open>The class on the last line that the file has for the word \<open>w\<close>, if it has one.\<close>

definition last_class :: "class_file \<Rightarrow> string \<rightharpoonup> int" where
  "last_class ps = map_of (rev ps)"

text \<open>The local variables and the class map at the moment the reading loop is left.\<close>

definition locals_after :: "class_file \<Rightarrow> 'f Vocabulary \<Rightarrow> read_locals" where
  "locals_after ps v = snd (snd (read_pairs ps (v, initial_locals)))"

definition classes_after :: "class_file \<Rightarrow> 'f Vocabulary \<Rightarrow> (string \<rightharpoonup> int)" where
  "classes_after ps v = m_mapWord2Class (fst (snd (read_pairs ps (v, initial_locals))))"

text \<open>Class files for examples.\<close>

definition sample_classes :: class_file where
  "sample_classes =
     [(''the'', 0), (''</s>'', 1), (''cat'', 2), (''dog'', 1), (''a'', 2), (''of'', 0)]"



text \<open>
  Two class files read one after the other into the same vocabulary, and the vocabulary
  between the two calls.
\<close>

definition first_classes :: class_file where
  "first_classes = [(''old'', 2), (''</s>'', 2)]"

definition second_classes :: class_file where
  "second_classes = [(''</s>'', 1), (''the'', 2)]"

definition reread_vocabulary :: "real Vocabulary" where
  "reread_vocabulary = snd (ReadClasses (Some first_classes) (empty_vocabulary 3 True))"

subsection \<open>Running the functions on a small corpus\<close>

text \<open>
  \<open>and_then\<close> chains two calls, the second one on the vocabulary the first one returns.
  \<open>word_counts\<close> lists the words of the result with their counts, in the order of the
  vector, and \<open>count_of\<close> is the count stored for a word, found through the word-to-index
  map.
\<close>

definition and_then :: "error + 'a \<Rightarrow> ('a \<Rightarrow> error + 'b) \<Rightarrow> error + 'b" where
  "and_then r f = (case r of Inl e \<Rightarrow> Inl e | Inr x \<Rightarrow> f x)"

definition word_counts :: "error + 'f Vocabulary \<Rightarrow> error + (string \<times> int) list" where
  "word_counts r = map_sum id (\<lambda>v. map (\<lambda>e. (word e, cn e)) (m_vocabularyStorage v)) r"

definition count_of :: "'f Vocabulary \<Rightarrow> string \<Rightarrow> int option" where
  "count_of v w =
     (case m_mapWord2Index v w of
        None \<Rightarrow> None
      | Some i \<Rightarrow> if in_range (m_vocabularyStorage v) i
                 then Some (cn (m_vocabularyStorage v ! nat i)) else None)"

text \<open>
  The vocabulary after \<open>AddWordToVocabulary\<close> has been called on the six tokens
  \<^verbatim>\<open>a a b </s> </s> </s>\<close>: the entries \<^verbatim>\<open>a\<close> (count 2), \<^verbatim>\<open>b\<close> (count 1) and \<^verbatim>\<open></s>\<close> (count 3), in
  this order.
\<close>

definition small_corpus :: "string list" where
  "small_corpus = [''a'', ''a'', ''b'', ''</s>'', ''</s>'', ''</s>'']"

definition small_vocabulary :: "error + real Vocabulary" where
  "small_vocabulary = add_words ideal_double small_corpus (empty_vocabulary 2 False)"

subsection \<open>Assigning words to classes\<close>

text \<open>
  The branch for classes from a file: \<open>cnum\<close> and \<open>last'\<close> are the local variables \<^verbatim>\<open>cnum\<close> and \<^verbatim>\<open>last\<close> of
  the loop, and the list is the part of the vector the loop has not visited yet. The
  literal \<^verbatim>\<open>0.0\<close> is written \<open>d_of_int ops 0\<close>.
\<close>

fun compact_classes :: "'f double_ops \<Rightarrow> int \<Rightarrow> int \<Rightarrow> 'f VocabWord list \<Rightarrow> 'f VocabWord list" where
  "compact_classes ops cnum last' [] = []"
| "compact_classes ops cnum last' (e # es) =
     (if classIndex e \<noteq> last'
      then e\<lparr>prob := d_of_int ops 0, classIndex := cnum + 1\<rparr>
           # compact_classes ops (cnum + 1) (classIndex e) es
      else e\<lparr>prob := d_of_int ops 0, classIndex := cnum\<rparr>
           # compact_classes ops cnum last' es)"

text \<open>
  The branch for frequency-based classes. \<open>total_count\<close> is the variable \<open>b\<close> and
  \<open>sqrt_total\<close> the variable \<open>dd\<close> of the source; \<open>next_df\<close> is the value of \<open>df\<close> after the
  first two statements of the body of the third loop, and \<open>balance_classes\<close> is that loop,
  with its variables \<open>df\<close> and \<open>a\<close>. The sum \<open>b\<close> is an \<^verbatim>\<open>int\<close> in the source; it is used
  inside the floating-point expressions only.
\<close>

definition total_count :: "'f VocabWord list \<Rightarrow> int" where
  "total_count s = fold (\<lambda>e b. b + cn e) s 0"

definition sqrt_share :: "'f double_ops \<Rightarrow> int \<Rightarrow> 'f VocabWord \<Rightarrow> 'f" where
  "sqrt_share ops b e = d_sqrt ops (d_div ops (d_of_int ops (cn e)) (d_of_int ops b))"

definition sqrt_total :: "'f double_ops \<Rightarrow> int \<Rightarrow> 'f VocabWord list \<Rightarrow> 'f" where
  "sqrt_total ops b s = fold (\<lambda>e dd. d_add ops dd (sqrt_share ops b e)) s (d_of_int ops 0)"

definition next_df :: "'f double_ops \<Rightarrow> int \<Rightarrow> 'f \<Rightarrow> 'f \<Rightarrow> 'f VocabWord \<Rightarrow> 'f" where
  "next_df ops b dd df e =
     (let df1 = d_add ops df (d_div ops (sqrt_share ops b e) dd)
      in if d_gt ops df1 (d_of_int ops 1) then d_of_int ops 1 else df1)"

fun balance_classes ::
  "'f double_ops \<Rightarrow> int \<Rightarrow> int \<Rightarrow> 'f \<Rightarrow> 'f \<Rightarrow> int \<Rightarrow> 'f VocabWord list \<Rightarrow> 'f VocabWord list" where
  "balance_classes ops sizeClasses b dd df a [] = []"
| "balance_classes ops sizeClasses b dd df a (e # es) =
     (let df' = next_df ops b dd df e
      in if d_gt ops df' (d_div ops (d_of_int ops (a + 1)) (d_of_int ops sizeClasses))
         then e\<lparr>prob := d_of_int ops 0, classIndex := a\<rparr>
              # balance_classes ops sizeClasses b dd df' (if a < sizeClasses - 1 then a + 1 else a) es
         else e\<lparr>prob := d_of_int ops 0, classIndex := a\<rparr>
              # balance_classes ops sizeClasses b dd df' a es)"

text \<open>The vector after the first part of \<open>AssignWordsToClasses\<close>, in either mode.\<close>

definition assign_class_ids :: "'f double_ops \<Rightarrow> 'f Vocabulary \<Rightarrow> 'f VocabWord list" where
  "assign_class_ids ops v =
     (let s = m_vocabularyStorage v; sizeClasses = m_numClasses v in
      if m_useClassFile v then compact_classes ops (- 1) (- 1) s
      else
        (let b = total_count s; dd = sqrt_total ops b s
         in balance_classes ops sizeClasses b dd (d_of_int ops 0) 0 s))"

text \<open>
  The loop that enters each index \<open>i\<close> into the vector of its class. A class index that
  is no position of \<open>m_classWords\<close> is an access outside the vector.
\<close>

fun push_words :: "int \<Rightarrow> 'f VocabWord list \<Rightarrow> int list list \<Rightarrow> error + int list list" where
  "push_words i [] cw = Inr cw"
| "push_words i (e # es) cw =
     (let wordClass = classIndex e in
      if in_range cw wordClass
      then push_words (i + 1) es (cw[nat wordClass := cw ! nat wordClass @ [i]])
      else Inl OutOfRange)"

text \<open>
  \<^verbatim>\<open>resize\<close> to a negative \<^verbatim>\<open>int\<close> asks for more elements than a vector can hold and
  throws. The \<^verbatim>\<open>assert\<close> is taken as compiled in.
\<close>

definition AssignWordsToClasses :: "'f double_ops \<Rightarrow> 'f Vocabulary \<Rightarrow> error + 'f Vocabulary" where
  "AssignWordsToClasses ops v =
     (let sizeClasses = m_numClasses v; s = assign_class_ids ops v in
      if sizeClasses < 0 then Inl BadAlloc
      else
        (case push_words 0 s (replicate (nat sizeClasses) []) of
           Inl e \<Rightarrow> Inl e
         | Inr cw \<Rightarrow>
             if [] \<in> set cw then Inl AssertionFailed
             else Inr (v\<lparr>m_vocabularyStorage := s, m_classWords := cw\<rparr>)))"

text \<open>
  For stating the result: the indices of the entries of class \<open>c\<close>, in ascending order,
  where the first entry of the list has index \<open>i\<close>.
\<close>

fun members :: "int \<Rightarrow> int \<Rightarrow> 'f VocabWord list \<Rightarrow> int list" where
  "members c i [] = []"
| "members c i (e # es) = (if classIndex e = c then [i] else []) @ members c (i + 1) es"

text \<open>The vector \<open>m_classWords\<close> of \<open>n\<close> classes for the entries \<open>s\<close>.\<close>

definition class_groups :: "nat \<Rightarrow> 'f VocabWord list \<Rightarrow> int list list" where
  "class_groups n s = map (\<lambda>c. members (int c) 0 s) [0..<n]"

text \<open>
  Entries of equal class index stand next to each other: between two entries of one
  class there is no entry of another class.
\<close>

definition contiguous :: "int list \<Rightarrow> bool" where
  "contiguous cs =
     (\<forall>k < length cs. \<forall>j < k. \<forall>i < j. cs ! i = cs ! k \<longrightarrow> cs ! j = cs ! i)"

text \<open>A vocabulary with the single word \<^verbatim>\<open></s>\<close>, for two frequency-based classes.\<close>

definition one_word_vocabulary :: "real Vocabulary" where
  "one_word_vocabulary = projr (add_words ideal_double [''</s>''] (empty_vocabulary 2 False))"

text \<open>A vocabulary with classes from a file in which the first entry has the class \<open>- 1\<close>.\<close>

definition minus_one_vocabulary :: "real Vocabulary" where
  "minus_one_vocabulary =
     (empty_vocabulary 2 True)
       \<lparr>m_vocabularyStorage :=
          [\<lparr>word = ''</s>'', cn = 3, prob = 0, classIndex = - 1\<rparr>,
           \<lparr>word = ''a'', cn = 2, prob = 0, classIndex = 0\<rparr>],
        m_mapWord2Index := [''</s>'' \<mapsto> 0, ''a'' \<mapsto> 1],
        m_mapIndex2Word := [0 \<mapsto> ''</s>'', 1 \<mapsto> ''a'']\<rparr>"

text \<open>
  The vocabulary after \<open>AddWordToVocabulary\<close> has been called on nine tokens: \<^verbatim>\<open></s>\<close>
  (count 4), \<^verbatim>\<open>a\<close> (count 4) and \<^verbatim>\<open>b\<close> (count 1), for two frequency-based classes.
\<close>

definition nine_token_vocabulary :: "real Vocabulary" where
  "nine_token_vocabulary =
     projr (add_words ideal_double
       [''</s>'', ''</s>'', ''</s>'', ''</s>'', ''a'', ''a'', ''a'', ''a'', ''b'']
       (empty_vocabulary 2 False))"

text \<open>A vocabulary with classes from a file: two words of class 7, then one of class 3.\<close>

definition file_class_vocabulary :: "real Vocabulary" where
  "file_class_vocabulary =
     (empty_vocabulary 2 True)
       \<lparr>m_vocabularyStorage :=
          [\<lparr>word = ''</s>'', cn = 3, prob = 0, classIndex = 7\<rparr>,
           \<lparr>word = ''a'', cn = 2, prob = 0, classIndex = 7\<rparr>,
           \<lparr>word = ''b'', cn = 1, prob = 0, classIndex = 3\<rparr>],
        m_mapWord2Index := [''</s>'' \<mapsto> 0, ''a'' \<mapsto> 1, ''b'' \<mapsto> 2],
        m_mapIndex2Word := [0 \<mapsto> ''</s>'', 1 \<mapsto> ''a'', 2 \<mapsto> ''b'']\<rparr>"

subsection \<open>Saving to and loading from a model file\<close>

text \<open>
  A file is the list of its characters. \<open>Save\<close> gives the text that \<^verbatim>\<open>fprintf\<close> appends to
  the file; the constructor that loads a vocabulary takes the characters of the file from
  the position of the stream on. The conversions \<^verbatim>\<open>%d\<close> and \<^verbatim>\<open>%s\<close> follow the C standard:
  \<^verbatim>\<open>%Nd\<close> writes a decimal number, padded with spaces on the left to \<open>N\<close> characters;
  \<^verbatim>\<open>%s\<close> writes a C string, which ends at its first NUL; reading with \<^verbatim>\<open>%d\<close> or \<^verbatim>\<open>%s\<close> skips
  white space first, \<^verbatim>\<open>%d\<close> then takes an optional sign and the digits that follow, and
  \<^verbatim>\<open>%s\<close> takes the characters up to the next white space.
\<close>

definition tab :: char where
  "tab = CHR 0x09"

definition newline :: char where
  "newline = CHR 0x0A"

definition nul :: char where
  "nul = CHR 0x00"

definition isspace :: "char \<Rightarrow> bool" where
  "isspace c = (c \<in> {CHR '' '', CHR 0x09, CHR 0x0A, CHR 0x0B, CHR 0x0C, CHR 0x0D})"

definition isdigit :: "char \<Rightarrow> bool" where
  "isdigit c = (c \<in> set ''0123456789'')"

text \<open>The character of a decimal digit, and the digit that a character stands for.\<close>

definition digit_char :: "nat \<Rightarrow> char" where
  "digit_char d = ''0123456789'' ! d"

definition digit_val :: "char \<Rightarrow> nat" where
  "digit_val c = length (takeWhile (\<lambda>d. d \<noteq> c) ''0123456789'')"

fun digits :: "nat \<Rightarrow> string" where
  "digits n = (if n < 10 then [digit_char n] else digits (n div 10) @ [digit_char (n mod 10)])"

definition print_d :: "int \<Rightarrow> string" where
  "print_d i = (if i < 0 then CHR ''-'' # digits (nat (- i)) else digits (nat i))"

definition pad :: "nat \<Rightarrow> string \<Rightarrow> string" where
  "pad w s = replicate (w - length s) CHR '' '' @ s"

definition c_str :: "string \<Rightarrow> string" where
  "c_str s = takeWhile (\<lambda>c. c \<noteq> nul) s"

text \<open>The loop of \<open>Save\<close> from the index \<open>wordIndex\<close> on, and \<open>Save\<close> itself.\<close>

fun save_rows :: "int \<Rightarrow> 'f VocabWord list \<Rightarrow> string" where
  "save_rows wordIndex [] = []"
| "save_rows wordIndex (e # es) =
     pad 6 (print_d wordIndex) @ [tab] @ pad 10 (print_d (cn e)) @ [tab] @ c_str (word e) @ [tab] @
     print_d (classIndex e) @ [newline] @ save_rows (wordIndex + 1) es"

definition vocabulary_header :: string where
  "vocabulary_header = [newline] @ ''Vocabulary:'' @ [newline]"

definition Save :: "'f Vocabulary \<Rightarrow> string" where
  "Save v = vocabulary_header @ save_rows 0 (m_vocabularyStorage v)"

text \<open>
  Reading: the result is the value read and the rest of the file, or \<open>None\<close> when the
  conversion fails (no number at this place, or the end of the file for \<^verbatim>\<open>%s\<close>).
\<close>

definition scan_d :: "string \<Rightarrow> (int \<times> string) option" where
  "scan_d fi =
     (let s = dropWhile isspace fi;
          (neg, s') = (case s of
                         c # r \<Rightarrow> if c = CHR ''-'' then (True, r)
                                  else if c = CHR ''+'' then (False, r) else (False, s)
                       | [] \<Rightarrow> (False, s));
          ds = takeWhile isdigit s';
          n = int (foldl (\<lambda>a c. 10 * a + digit_val c) 0 ds)
      in if ds = [] then None else Some (if neg then - n else n, dropWhile isdigit s'))"

definition scan_s :: "string \<Rightarrow> (string \<times> string) option" where
  "scan_s fi =
     (let s = dropWhile isspace fi
      in if s = [] then None
         else Some (takeWhile (\<lambda>c. \<not> isspace c) s, dropWhile (\<lambda>c. \<not> isspace c) s))"

text \<open>
  The body of the loop of the constructor, for the index \<open>a\<close>. A \<^verbatim>\<open>%d\<close> that fails leaves
  its variable uninitialised, and the variable is read afterwards: \<open>ScanFailed\<close>. A token
  of 2048 characters or more does not fit \<^verbatim>\<open>buffer\<close> with its final NUL: \<open>OutOfRange\<close>. When
  the file ends before \<^verbatim>\<open>%s\<close>, \<^verbatim>\<open>fscanf\<close> returns \<^verbatim>\<open>EOF\<close>, which is not 0, and the word is the
  empty \<^verbatim>\<open>buffer\<close>.
\<close>

definition load_row ::
  "'f double_ops \<Rightarrow> int \<Rightarrow> string \<Rightarrow> 'f Vocabulary \<Rightarrow> error + ('f Vocabulary \<times> string)" where
  "load_row ops a fi v =
     (case scan_d fi of
        None \<Rightarrow> Inl ScanFailed
      | Some (wordIndex, fi1) \<Rightarrow>
     (case scan_d fi1 of
        None \<Rightarrow> Inl ScanFailed
      | Some (wordCount, fi2) \<Rightarrow>
          if wordIndex \<noteq> a then Inl AssertionFailed
          else
            (let (token, fi3) = (case scan_s fi2 of None \<Rightarrow> ([], fi2) | Some r \<Rightarrow> r)
             in if length token \<ge> 2048 then Inl OutOfRange
                else
                  (let w = c_str token in
                   case scan_d fi3 of
                     None \<Rightarrow> Inl ScanFailed
                   | Some (classIndex', fi4) \<Rightarrow>
                       Inr (v\<lparr>m_vocabularyStorage := m_vocabularyStorage v @
                                [\<lparr>word = w, cn = wordCount, prob = d_of_int ops 0,
                                  classIndex = classIndex'\<rparr>],
                              m_mapWord2Index := (m_mapWord2Index v)(w \<mapsto> wordIndex),
                              m_mapIndex2Word := (m_mapIndex2Word v)(wordIndex \<mapsto> w)\<rparr>,
                            fi4)))))"

fun load_rows ::
  "'f double_ops \<Rightarrow> nat \<Rightarrow> int \<Rightarrow> string \<Rightarrow> 'f Vocabulary \<Rightarrow> error + ('f Vocabulary \<times> string)" where
  "load_rows ops 0 a fi v = Inr (v, fi)"
| "load_rows ops (Suc n) a fi v =
     (case load_row ops a fi v of
        Inl e \<Rightarrow> Inl e
      | Inr (v', fi') \<Rightarrow> load_rows ops n (a + 1) fi' v')"

text \<open>
  The constructor \<^verbatim>\<open>Vocabulary(FILE *fi, int sizeVocabulary)\<close>. The vector and the maps of
  the new object start empty; \<open>numClasses\<close> and \<open>useClassFile\<close> stand for the members that
  the constructor does not set.
\<close>

definition Vocabulary_from_file ::
  "'f double_ops \<Rightarrow> int \<Rightarrow> bool \<Rightarrow> string \<Rightarrow> int \<Rightarrow> error + 'f Vocabulary" where
  "Vocabulary_from_file ops numClasses useClassFile fi sizeVocabulary =
     (if sizeVocabulary < 0 then Inl BadAlloc
      else map_sum id fst
             (load_rows ops (nat sizeVocabulary) 0 fi (empty_vocabulary numClasses useClassFile)))"

text \<open>The part of a saved file that follows the header line.\<close>

definition after_header :: "string \<Rightarrow> string" where
  "after_header fi = drop (length vocabulary_header) fi"

text \<open>
  What a word must be like to come back from the file: not empty, shorter than the
  buffer, and free of white space and NUL.
\<close>

definition plain_word :: "string \<Rightarrow> bool" where
  "plain_word w = (w \<noteq> [] \<and> length w < 2048 \<and> (\<forall>c \<in> set w. \<not> isspace c \<and> c \<noteq> nul))"

text \<open>The vocabulary after \<open>AddWordToVocabulary\<close> has been called on the one token \<^verbatim>\<open>a 7\<close>.\<close>

definition spaced_vocabulary :: "real Vocabulary" where
  "spaced_vocabulary = projr (add_words ideal_double [''a 7''] (empty_vocabulary 2 False))"

subsection \<open>Properties of reading word classes\<close>

lemma store_pairs_Nil: "store_pairs [] v = v"
  by (simp add: store_pairs_def)

lemma store_pairs_Cons:
  "store_pairs ((w, c) # ps) v =
   store_pairs ps (v\<lparr>m_mapWord2Class := (m_mapWord2Class v)(w \<mapsto> c), m_classes := insert c (m_classes v)\<rparr>)"
  by (simp add: store_pairs_def map_add_def fun_eq_iff map_of_append split: option.splits)

lemma read_pairs_state:
  "fst (snd (read_pairs ps (v, l))) = store_pairs (before_start_token ps) v"
proof (induction ps arbitrary: v l)
  case Nil
  then show ?case by (simp add: before_start_token_def store_pairs_Nil)
next
  case (Cons p ps)
  obtain w c where p: "p = (w, c)" by (cases p)
  show ?case
    using Cons.IH by (simp add: p before_start_token_def store_pairs_Nil store_pairs_Cons)
qed

lemma read_pairs_ok: "fst (read_pairs ps (v, l)) = (''<s>'' \<notin> fst ` set ps)"
proof (induction ps arbitrary: v l)
  case Nil
  then show ?case by simp
next
  case (Cons p ps)
  obtain w c where p: "p = (w, c)" by (cases p)
  show ?case using Cons.IH by (auto simp: p)
qed

lemma Max_insert_greater:
  "finite S \<Longrightarrow> Max (insert (if c > a then c else a) S) = Max (insert (a::int) (insert c S))"
  by (cases "S = {}") (auto simp: max_def)

lemma read_pairs_max:
  "max_class (snd (snd (read_pairs ps (v, l)))) = Max (insert (max_class l) (snd ` set (before_start_token ps)))"
proof (induction ps arbitrary: v l)
  case Nil
  then show ?case by (simp add: before_start_token_def)
next
  case (Cons p ps)
  obtain w c where p: "p = (w, c)" by (cases p)
  show ?case
  proof (cases "w = ''<s>''")
    case True
    then show ?thesis by (simp add: p before_start_token_def)
  next
    case False
    have "max_class (snd (snd (read_pairs (p # ps) (v, l)))) =
          Max (insert (if c > max_class l then c else max_class l) (snd ` set (before_start_token ps)))"
      using False Cons.IH by (simp add: p)
    also have "\<dots> = Max (insert (max_class l) (insert c (snd ` set (before_start_token ps))))"
      by (rule Max_insert_greater) simp
    finally show ?thesis using False by (simp add: p before_start_token_def)
  qed
qed

lemma read_pairs_eos:
  "eos_class (snd (snd (read_pairs ps (v, l)))) =
   (case map_of (rev (before_start_token ps)) eos of None \<Rightarrow> eos_class l | Some c \<Rightarrow> c)"
proof (induction ps arbitrary: v l)
  case Nil
  then show ?case by (simp add: before_start_token_def)
next
  case (Cons p ps)
  obtain w c where p: "p = (w, c)" by (cases p)
  show ?case
    using Cons.IH
    by (auto simp: p before_start_token_def map_add_def split: option.splits)
qed

lemma set_insert_set: "set (set_insert w ws) = insert w (set ws)"
  by (auto simp: set_insert_def set_insort_key)

lemma set_insert_distinct: "distinct ws \<Longrightarrow> distinct (set_insert w ws)"
  by (simp add: set_insert_def distinct_insort)

lemma read_pairs_words:
  "set (words (snd (snd (read_pairs ps (v, l))))) = set (words l) \<union> fst ` set (before_start_token ps)"
proof (induction ps arbitrary: v l)
  case Nil
  then show ?case by (simp add: before_start_token_def)
next
  case (Cons p ps)
  obtain w c where p: "p = (w, c)" by (cases p)
  show ?case
  proof (cases "w = ''<s>''")
    case True
    then show ?thesis by (simp add: p before_start_token_def)
  next
    case False
    have "set (words (snd (snd (read_pairs (p # ps) (v, l))))) =
          insert w (set (words l)) \<union> fst ` set (before_start_token ps)"
      using False Cons.IH by (simp add: p set_insert_set)
    then show ?thesis using False by (simp add: p before_start_token_def)
  qed
qed

lemma read_pairs_distinct:
  "distinct (words l) \<Longrightarrow> distinct (words (snd (snd (read_pairs ps (v, l)))))"
proof (induction ps arbitrary: v l)
  case Nil
  then show ?case by simp
next
  case (Cons p ps)
  obtain w c where p: "p = (w, c)" by (cases p)
  show ?case
    using Cons.prems Cons.IH by (simp add: p set_insert_distinct)
qed

lemma swap_classes_step:
  "m w = Some c \<Longrightarrow> swap_classes (w # ws) ec mc m = swap_classes ws ec mc (m(w \<mapsto> swap_id ec mc c))"
  by (simp add: subscript_def swap_id_def fun_upd_idem)

lemma swap_classes_eq:
  "distinct ws \<Longrightarrow> set ws \<subseteq> dom m \<Longrightarrow>
   swap_classes ws ec mc m = (\<lambda>w. if w \<in> set ws then map_option (swap_id ec mc) (m w) else m w)"
proof (induction ws arbitrary: m)
  case Nil
  then show ?case by simp
next
  case (Cons w ws)
  from Cons.prems obtain c where c: "m w = Some c" by auto
  let ?m' = "m(w \<mapsto> swap_id ec mc c)"
  have d: "distinct ws" and nin: "w \<notin> set ws" using Cons.prems by auto
  have sub: "set ws \<subseteq> dom ?m'" using Cons.prems by auto
  have "swap_classes (w # ws) ec mc m = swap_classes ws ec mc ?m'"
    using c by (rule swap_classes_step)
  also have "\<dots> = (\<lambda>x. if x \<in> set ws then map_option (swap_id ec mc) (?m' x) else ?m' x)"
    using d sub by (rule Cons.IH)
  also have "\<dots> = (\<lambda>x. if x \<in> set (w # ws) then map_option (swap_id ec mc) (m x) else m x)"
    using nin c by (auto simp: fun_eq_iff)
  finally show ?case .
qed

lemma read_pairs_eq:
  "read_pairs ps (v, l) =
     (''<s>'' \<notin> fst ` set ps, store_pairs (before_start_token ps) v, snd (snd (read_pairs ps (v, l))))"
  using read_pairs_ok[of ps v l] read_pairs_state[of ps v l]
  by (cases "read_pairs ps (v, l)") simp

lemma before_start_token_id: "''<s>'' \<notin> fst ` set ps \<Longrightarrow> before_start_token ps = ps"
  unfolding before_start_token_def by (rule takeWhile_eq_all_conv[THEN iffD2]) force

lemma ReadClasses_failure: 
  "fst (ReadClasses (Some ps) v) \<noteq> None \<Longrightarrow>
   snd (ReadClasses (Some ps) v) = store_pairs (before_start_token ps) v"
  unfolding ReadClasses_def
  by (subst (asm) read_pairs_eq, subst read_pairs_eq) (simp split: if_splits)

lemma ReadClasses_start_token:
  "''<s>'' \<in> fst ` set ps \<Longrightarrow> fst (ReadClasses (Some ps) v) = Some StartTokenInVocab"
  unfolding ReadClasses_def by (subst read_pairs_eq) simp

lemma initial_eos [simp]: "eos_class initial_locals = - 1"
  and initial_max [simp]: "max_class initial_locals = - 1"
  and initial_words [simp]: "words initial_locals = []"
  by (simp_all add: initial_locals_def)


lemma ReadClasses_success:
  assumes "''<s>'' \<notin> fst ` set ps"
    and "eos_class (snd (snd (read_pairs ps (v, initial_locals)))) \<noteq> - 1"
  shows "ReadClasses (Some ps) v =
     (None, (store_pairs ps v)\<lparr>m_mapWord2Class :=
        (\<lambda>w. if w \<in> fst ` set ps
              then map_option (swap_id (eos_class (snd (snd (read_pairs ps (v, initial_locals)))))
                                  (max_class (snd (snd (read_pairs ps (v, initial_locals))))))
                     (m_mapWord2Class (store_pairs ps v) w)
              else m_mapWord2Class (store_pairs ps v) w)\<rparr>)"
proof -
  obtain ok v1 l where rp: "read_pairs ps (v, initial_locals) = (ok, v1, l)"
    by (cases "read_pairs ps (v, initial_locals)") blast
  have ok: "ok"
    using read_pairs_ok[of ps v initial_locals] rp assms(1) by simp
  have v1: "v1 = store_pairs ps v"
    using read_pairs_state[of ps v initial_locals] rp by (simp add: before_start_token_id[OF assms(1)])
  have ws: "set (words l) = fst ` set ps"
    using read_pairs_words[of ps v initial_locals] rp by (simp add: before_start_token_id[OF assms(1)])
  have d: "distinct (words l)"
    using read_pairs_distinct[of initial_locals ps v] rp by simp
  have ec: "eos_class l \<noteq> - 1"
    using assms(2) rp by simp
  have "map_of (rev ps) eos \<noteq> None"
    using ec read_pairs_eos[of ps v initial_locals] rp
    by (auto simp: before_start_token_id[OF assms(1)] split: option.splits)
  then have "eos \<in> fst ` set ps"
    by (simp add: map_of_eq_None_iff)
  let ?v1 = "store_pairs ps v"
  have domv1: "dom (m_mapWord2Class ?v1) = dom (m_mapWord2Class v) \<union> fst ` set ps"
    by (auto simp: store_pairs_def dom_map_of_conv_image_fst)
  then have ne: "dom (m_mapWord2Class ?v1) \<noteq> {}"
    using \<open>eos \<in> fst ` set ps\<close> by auto
  have sub: "set (words l) \<subseteq> dom (m_mapWord2Class ?v1)"
    using ws domv1 by simp
  have swap: "swap_classes (words l) (eos_class l) (max_class l) (m_mapWord2Class ?v1) =
      (\<lambda>w. if w \<in> fst ` set ps
            then map_option (swap_id (eos_class l) (max_class l)) (m_mapWord2Class ?v1 w)
            else m_mapWord2Class ?v1 w)"
    using swap_classes_eq[OF d sub] ws by simp
  have l: "snd (snd (read_pairs ps (v, initial_locals))) = l"
    using rp by simp
  have "ReadClasses (Some ps) v =
     (None, ?v1\<lparr>m_mapWord2Class := swap_classes (words l) (eos_class l) (max_class l) (m_mapWord2Class ?v1)\<rparr>)"
    using ok ec ne by (simp add: ReadClasses_def rp v1)
  then show ?thesis
    unfolding l swap .
qed

lemma ReadClasses_eos_missing:
  assumes "''<s>'' \<notin> fst ` set ps"
    and "eos_class (snd (snd (read_pairs ps (v, initial_locals)))) = - 1"
  shows "fst (ReadClasses (Some ps) v) = Some EosNotPresent"
  unfolding ReadClasses_def using assms by (subst read_pairs_eq) simp

lemma ReadClasses_None_iff:
  "fst (ReadClasses (Some ps) v) = None \<longleftrightarrow>
   ''<s>'' \<notin> fst ` set ps \<and> eos_class (locals_after ps v) \<noteq> - 1"
proof (cases "''<s>'' \<in> fst ` set ps")
  case True
  then show ?thesis by (simp add: ReadClasses_start_token)
next
  case ns: False
  show ?thesis
  proof (cases "eos_class (snd (snd (read_pairs ps (v, initial_locals)))) = - 1")
    case True
    then show ?thesis
      using ns by (simp add: ReadClasses_eos_missing locals_after_def)
  next
    case False
    have "fst (ReadClasses (Some ps) v) = None"
      by (subst ReadClasses_success[OF ns False]) simp
    then show ?thesis
      using ns False by (simp add: locals_after_def)
  qed
qed

lemma last_class_eos:
  "''<s>'' \<notin> fst ` set ps \<Longrightarrow>
   eos_class (snd (snd (read_pairs ps (v, initial_locals)))) =
     (case last_class ps eos of None \<Rightarrow> - 1 | Some c \<Rightarrow> c)"
  by (simp add: read_pairs_eos before_start_token_id last_class_def split: option.splits)

lemma max_class_file:
  "''<s>'' \<notin> fst ` set ps \<Longrightarrow>
   max_class (snd (snd (read_pairs ps (v, initial_locals)))) = Max (insert (- 1) (snd ` set ps))"
  by (simp add: read_pairs_max before_start_token_id)





text \<open>
  Claim C9 says that a failing \<open>ReadClasses\<close> leaves the word-to-class state as it
  found it. The code enters every pair into the map as soon as it is read and returns
  \<^verbatim>\<open>false\<close> without undoing anything: on the file with the lines \<^verbatim>\<open>the 0\<close> and \<^verbatim>\<open><s> 1\<close>,
  read into an empty vocabulary, the call fails and the class of \<^verbatim>\<open>the\<close> stays behind.
\<close>

theorem ReadClasses_partial_state:
  "fst (ReadClasses (Some [(''the'', 0), (''<s>'', 1)]) (empty_vocabulary 3 True :: real Vocabulary))
     = Some StartTokenInVocab \<and>
   m_mapWord2Class (empty_vocabulary 3 True :: real Vocabulary) ''the'' = None \<and>
   m_mapWord2Class (snd (ReadClasses (Some [(''the'', 0), (''<s>'', 1)])
                         (empty_vocabulary 3 True :: real Vocabulary))) ''the'' = Some 0"
  by (simp add: ReadClasses_def empty_vocabulary_def initial_locals_def eos_def set_insert_def)

text \<open>
  Claim C9, as the code has it. Whenever \<open>ReadClasses\<close> fails, a file that cannot be
  opened leaves the vocabulary unchanged; otherwise the vocabulary holds every pair read
  before the failure was detected, that is the pairs before the first \<^verbatim>\<open><s>\<close> (the whole
  file when there is none), entered in order into the word-to-class map and the set of
  classes, and nothing else has changed.
\<close>

theorem ReadClasses_failure_state:
  "fst (ReadClasses fin v) \<noteq> None \<Longrightarrow>
   snd (ReadClasses fin v) =
     (case fin of None \<Rightarrow> v | Some ps \<Rightarrow> store_pairs (before_start_token ps) v)"
proof (cases fin)
  case None
  then show ?thesis by (simp add: ReadClasses_def)
next
  case (Some ps)
  assume "fst (ReadClasses fin v) \<noteq> None"
  then show ?thesis
    using Some ReadClasses_failure[of ps v] by simp
qed

theorem ReadClasses_failure_state_witness:
  "fst (ReadClasses (Some [(''the'', 0), (''cat'', 4), (''<s>'', 1), (''</s>'', 2)])
         (empty_vocabulary 3 True :: real Vocabulary)) \<noteq> None \<and>
   snd (ReadClasses (Some [(''the'', 0), (''cat'', 4), (''<s>'', 1), (''</s>'', 2)])
         (empty_vocabulary 3 True :: real Vocabulary)) =
   store_pairs [(''the'', 0), (''cat'', 4)] (empty_vocabulary 3 True)"
proof -
  have f: "fst (ReadClasses (Some [(''the'', 0), (''cat'', 4), (''<s>'', 1), (''</s>'', 2)])
         (empty_vocabulary 3 True :: real Vocabulary)) \<noteq> None"
    by (simp add: ReadClasses_def initial_locals_def eos_def)
  show ?thesis
    using f ReadClasses_failure_state[OF f] by (simp add: before_start_token_def)
qed

text \<open>
  Claim C10 says that the pass after the reading loop remaps every word whose class is
  one of the two ids. The pass goes through the words of the file that was just read,
  not through the map. After \<open>first_classes\<close> has been read, the word \<^verbatim>\<open>old\<close> has the class 2;
  reading \<open>second_classes\<close> into the same vocabulary gives \<open>eos_class = 1\<close> and
  \<open>max_class = 2\<close> and exchanges the classes of \<^verbatim>\<open></s>\<close> and \<^verbatim>\<open>the\<close>, while \<^verbatim>\<open>old\<close>, whose class is
  the maximum 2, keeps it.
\<close>

theorem ReadClasses_swap_skips_earlier_words:
  "fst (ReadClasses (Some first_classes) (empty_vocabulary 3 True :: real Vocabulary)) = None \<and>
   fst (ReadClasses (Some second_classes) reread_vocabulary) = None \<and>
   eos_class (locals_after second_classes reread_vocabulary) = 1 \<and>
   max_class (locals_after second_classes reread_vocabulary) = 2 \<and>
   map (classes_after second_classes reread_vocabulary) [''old'', ''the'', ''</s>''] =
     [Some 2, Some 2, Some 1] \<and>
   map (m_mapWord2Class (snd (ReadClasses (Some second_classes) reread_vocabulary)))
     [''old'', ''the'', ''</s>''] = [Some 2, Some 1, Some 2]"
  by (simp add: reread_vocabulary_def first_classes_def second_classes_def ReadClasses_def
      locals_after_def classes_after_def empty_vocabulary_def initial_locals_def eos_def
      set_insert_def subscript_def)

text \<open>
  Claim C10, as the code has it. When \<open>ReadClasses\<close> succeeds, \<open>eos_class\<close> is the class on
  the last line of the file for the end-of-sequence token, \<open>max_class\<close> is the greater of
  \<open>- 1\<close> and the greatest class index of the file, and the map at the end of the reading
  loop is the map from before the call overridden by the last class of each word of the
  file. The pass after the loop exchanges the two ids \<open>eos_class\<close> and \<open>max_class\<close> over all
  words of the file: every word of the file whose class is \<open>eos_class\<close> gets \<open>max_class\<close>,
  every word of the file whose class is \<open>max_class\<close> gets \<open>eos_class\<close>, and every other word
  of the file keeps its class, however many words share either id. Words that are in the
  map from before the call and not in the file keep their class, whatever it is. When
  \<open>eos_class\<close> already is \<open>max_class\<close> the pass changes no class. When the map was empty
  before the call, the exchange covers every word.
\<close>

theorem ReadClasses_swap:
  assumes "fst (ReadClasses (Some ps) v) = None"
  shows "last_class ps eos = Some (eos_class (locals_after ps v)) \<and>
    max_class (locals_after ps v) = Max (insert (- 1) (snd ` set ps)) \<and>
    classes_after ps v = m_mapWord2Class v ++ last_class ps \<and>
    (\<forall>w \<in> fst ` set ps.
       m_mapWord2Class (snd (ReadClasses (Some ps) v)) w =
       map_option (swap_id (eos_class (locals_after ps v)) (max_class (locals_after ps v)))
         (classes_after ps v w) \<and> classes_after ps v w \<noteq> None) \<and>
    (\<forall>w. w \<notin> fst ` set ps \<longrightarrow>
       m_mapWord2Class (snd (ReadClasses (Some ps) v)) w = m_mapWord2Class v w) \<and>
    (eos_class (locals_after ps v) = max_class (locals_after ps v) \<longrightarrow>
       m_mapWord2Class (snd (ReadClasses (Some ps) v)) = classes_after ps v) \<and>
    (m_mapWord2Class v = Map.empty \<longrightarrow>
       (\<forall>w. m_mapWord2Class (snd (ReadClasses (Some ps) v)) w =
            map_option (swap_id (eos_class (locals_after ps v)) (max_class (locals_after ps v)))
              (classes_after ps v w)))"
proof -
  let ?l = "snd (snd (read_pairs ps (v, initial_locals)))"
  let ?final = "m_mapWord2Class (snd (ReadClasses (Some ps) v))"
  let ?f = "swap_id (eos_class (locals_after ps v)) (max_class (locals_after ps v))"
  have ns: "''<s>'' \<notin> fst ` set ps" and ec: "eos_class ?l \<noteq> - 1"
    using assms by (simp_all add: ReadClasses_None_iff locals_after_def)
  note r = ReadClasses_success[OF ns ec]
  have pre: "classes_after ps v = m_mapWord2Class (store_pairs ps v)"
    by (simp add: classes_after_def read_pairs_state before_start_token_id[OF ns])
  have 1: "last_class ps eos = Some (eos_class (locals_after ps v))"
    using ec by (auto simp: locals_after_def last_class_eos[OF ns] split: option.splits)
  have 2: "max_class (locals_after ps v) = Max (insert (- 1) (snd ` set ps))"
    by (simp add: locals_after_def max_class_file[OF ns])
  have 3: "classes_after ps v = m_mapWord2Class v ++ last_class ps"
    by (simp add: pre store_pairs_def last_class_def)
  have inside: "?final w = map_option ?f (classes_after ps v w) \<and> classes_after ps v w \<noteq> None"
    if "w \<in> fst ` set ps" for w
  proof -
    have "w \<in> dom (map_of (rev ps))" using that by (simp add: dom_map_of_conv_image_fst)
    then have "classes_after ps v w \<noteq> None" by (auto simp: pre store_pairs_def)
    then show ?thesis using that by (simp add: r pre locals_after_def)
  qed
  have outside: "?final w = m_mapWord2Class v w" if "w \<notin> fst ` set ps" for w
  proof -
    have "map_of (rev ps) w = None"
      using that by (simp add: map_of_eq_None_iff)
    then show ?thesis
      using that by (simp add: r store_pairs_def map_add_def)
  qed
  have same: "?final = classes_after ps v"
    if "eos_class (locals_after ps v) = max_class (locals_after ps v)"
  proof
    fix w
    have "swap_id (max_class ?l) (max_class ?l) = (\<lambda>c. c)"
      by (auto simp: swap_id_def)
    then show "?final w = classes_after ps v w"
      using that by (simp add: r pre locals_after_def option.map_ident)
  qed
  have fresh: "?final w = map_option ?f (classes_after ps v w)"
    if "m_mapWord2Class v = Map.empty" for w
  proof (cases "w \<in> fst ` set ps")
    case True
    then show ?thesis using inside by simp
  next
    case False
    then have "map_of (rev ps) w = None" by (simp add: map_of_eq_None_iff)
    then have "classes_after ps v w = None"
      using that by (simp add: 3 last_class_def)
    then show ?thesis using outside[OF False] that by simp
  qed
  show ?thesis
    using 1 2 3 inside outside same fresh by (intro conjI ballI allI impI) simp_all
qed

theorem ReadClasses_swap_witness:
  "fst (ReadClasses (Some sample_classes) (empty_vocabulary 3 True :: real Vocabulary)) = None \<and>
   m_mapWord2Class (empty_vocabulary 3 True :: real Vocabulary) = Map.empty \<and>
   last_class sample_classes eos = Some 1 \<and>
   eos_class (locals_after sample_classes (empty_vocabulary 3 True :: real Vocabulary)) = 1 \<and>
   max_class (locals_after sample_classes (empty_vocabulary 3 True :: real Vocabulary)) = 2 \<and>
   Max (insert (- 1) (snd ` set sample_classes)) = 2 \<and>
   map (classes_after sample_classes (empty_vocabulary 3 True :: real Vocabulary))
     [''</s>'', ''dog'', ''cat'', ''a'', ''the'', ''of'', ''old''] =
     [Some 1, Some 1, Some 2, Some 2, Some 0, Some 0, None] \<and>
   map (m_mapWord2Class (snd (ReadClasses (Some sample_classes)
                               (empty_vocabulary 3 True :: real Vocabulary))))
     [''</s>'', ''dog'', ''cat'', ''a'', ''the'', ''of'', ''old''] =
     [Some 2, Some 2, Some 1, Some 1, Some 0, Some 0, None]"
proof -
  let ?v = "empty_vocabulary 3 True :: real Vocabulary"
  let ?ws = "[''</s>'', ''dog'', ''cat'', ''a'', ''the'', ''of'', ''old'']"
  have ok: "fst (ReadClasses (Some sample_classes) ?v) = None"
    by (simp add: ReadClasses_def sample_classes_def initial_locals_def eos_def set_insert_def
        subscript_def)
  have e: "m_mapWord2Class ?v = Map.empty"
    by (simp add: empty_vocabulary_def)
  have lc: "last_class sample_classes eos = Some 1"
    by (simp add: last_class_def sample_classes_def eos_def)
  have mx: "Max (insert (- 1) (snd ` set sample_classes)) = 2"
    by (simp add: sample_classes_def)
  note t = ReadClasses_swap[OF ok]
  have l: "eos_class (locals_after sample_classes ?v) = 1"
    "max_class (locals_after sample_classes ?v) = 2"
    using t[THEN conjunct1] t[THEN conjunct2, THEN conjunct1] by (simp_all add: lc mx)
  have c: "map (classes_after sample_classes ?v) ?ws =
      [Some 1, Some 1, Some 2, Some 2, Some 0, Some 0, None]"
    by (simp add: classes_after_def sample_classes_def initial_locals_def eos_def
        empty_vocabulary_def)
  note all = t[THEN conjunct2, THEN conjunct2, THEN conjunct2, THEN conjunct2, THEN conjunct2,
      THEN conjunct2, rule_format, OF e, unfolded l]
  have "map (m_mapWord2Class (snd (ReadClasses (Some sample_classes) ?v))) ?ws =
      map (map_option (swap_id 1 2)) (map (classes_after sample_classes ?v) ?ws)"
    by (simp add: all)
  also have "\<dots> = [Some 2, Some 2, Some 1, Some 1, Some 0, Some 0, None]"
    unfolding c by (simp add: swap_id_def)
  finally have f: "map (m_mapWord2Class (snd (ReadClasses (Some sample_classes) ?v))) ?ws =
      [Some 2, Some 2, Some 1, Some 1, Some 0, Some 0, None]" .
  show ?thesis
    by (intro conjI ok e lc l mx c f)
qed


subsection \<open>Properties of sorting by frequency\<close>

lemma sort_insert_mset: "mset (sort_insert lt x ys) = add_mset x (mset ys)"
  by (induction ys) auto

lemma std_sort_mset: "mset (std_sort lt xs) = mset xs"
  by (induction xs) (auto simp: sort_insert_mset)

lemma std_sort_set: "set (std_sort lt xs) = set xs"
  using std_sort_mset[of lt xs] by (metis set_mset_mset)

lemma std_sort_length: "length (std_sort lt xs) = length xs"
  using std_sort_mset[of lt xs] by (metis size_mset)

lemma sort_insert_set: "set (sort_insert lt x ys) = insert x (set ys)"
  using sort_insert_mset[of lt x ys] by (metis set_mset_mset set_mset_add_mset_insert)

lemma sort_insert_descending:
  "sorted_wrt (\<lambda>a b. cn b \<le> cn a) ys \<Longrightarrow>
   sorted_wrt (\<lambda>a b. cn b \<le> cn a) (sort_insert OrderWordCounts x ys)"
  by (induction ys) (auto simp: sort_insert_set OrderWordCounts_def)

lemma std_sort_descending: "sorted_wrt (\<lambda>a b. cn b \<le> cn a) (std_sort OrderWordCounts xs)"
  by (induction xs) (auto simp: sort_insert_descending)

lemma std_sort_greatest_first:
  "\<forall>y \<in> set xs. cn y \<le> cn x \<Longrightarrow>
   std_sort OrderWordCounts (x # xs) = x # std_sort OrderWordCounts xs"
proof -
  assume a: "\<forall>y \<in> set xs. cn y \<le> cn x"
  show ?thesis
  proof (cases "std_sort OrderWordCounts xs")
    case Nil
    then show ?thesis by simp
  next
    case (Cons y ys)
    then have "y \<in> set xs" using std_sort_set[of OrderWordCounts xs] by auto
    then have "\<not> OrderWordCounts y x" using a by (auto simp: OrderWordCounts_def)
    then show ?thesis using Cons by simp
  qed
qed

text \<open>
  Where the counts are pairwise different, the arrangement in descending order is
  unique: every result that \<^verbatim>\<open>std::sort\<close> may give is the one of \<open>std_sort\<close>.
\<close>

lemma descending_unique:
  assumes "mset ys = mset xs" and "sorted_wrt (\<lambda>a b. cn b \<le> cn a) ys"
    and "distinct (map cn xs)"
  shows "ys = std_sort OrderWordCounts xs"
proof -
  let ?zs = "std_sort OrderWordCounts xs"
  let ?k = "\<lambda>e. - cn e"
  have m: "mset ys = mset ?zs" using assms(1) by (simp add: std_sort_mset)
  have dy: "distinct (map cn ys)"
    using assms(1,3) by (metis mset_map mset_eq_imp_distinct_iff)
  have dz: "distinct (map cn ?zs)"
    using assms(3) std_sort_mset[of OrderWordCounts xs] by (metis mset_map mset_eq_imp_distinct_iff)
  have inj: "inj_on cn (set ys)" using dy by (simp add: distinct_map)
  have "sorted (map ?k ys)" using assms(2) by (simp add: sorted_wrt_map)
  moreover have "distinct (map ?k ys)" using dy by (simp add: distinct_map inj_on_def)
  moreover have "sorted (map ?k ?zs)" using std_sort_descending[of xs] by (simp add: sorted_wrt_map)
  moreover have "distinct (map ?k ?zs)" using dz by (simp add: distinct_map inj_on_def)
  moreover have "set (map ?k ys) = set (map ?k ?zs)"
    using m by (metis mset_map set_mset_mset)
  ultimately have "map ?k ys = map ?k ?zs"
    by (rule sorted_distinct_set_unique)
  then have "map uminus (map ?k ys) = map uminus (map ?k ?zs)"
    by (rule arg_cong)
  then have "map cn ys = map cn ?zs"
    by (simp add: o_def)
  moreover have "set ?zs = set ys" using m by (metis set_mset_mset)
  then have "inj_on cn (set ys \<union> set ?zs)" using inj by simp
  ultimately show ?thesis
    by (simp add: inj_on_map_eq_map)
qed


text \<open>
  When \<^verbatim>\<open></s>\<close> has the index 0 before the call and no count is above \<^verbatim>\<open>INT_MAX\<close>, the
  index taken before the sort is still that of \<^verbatim>\<open></s>\<close> after it: the first entry stays, with
  its count, the other entries follow in descending order of their counts, and the
  entries are the same as before.
\<close>

lemma SortVocabularyByFrequency_eos_in_front:
  assumes "m_mapWord2Index v eos = Some 0" and "m_vocabularyStorage v = e # es"
    and "\<forall>x \<in> set es. cn x \<le> INT_MAX"
  shows "\<exists>v'. SortVocabularyByFrequency v = Inr v' \<and>
           m_vocabularyStorage v' = e # std_sort OrderWordCounts es \<and>
           sorted_wrt (\<lambda>a b. cn b \<le> cn a) (tl (m_vocabularyStorage v')) \<and>
           mset (m_vocabularyStorage v') = mset (m_vocabularyStorage v)"
proof -
  let ?e = "e\<lparr>cn := INT_MAX\<rparr>"
  have "\<forall>y \<in> set es. cn y \<le> cn ?e" using assms(3) by simp
  then have s2: "std_sort OrderWordCounts (?e # es) = ?e # std_sort OrderWordCounts es"
    by (rule std_sort_greatest_first)
  have i: "SearchWordInVocabulary v eos = 0"
    using assms(1) by (simp add: SearchWordInVocabulary_def)
  have "SortVocabularyByFrequency v =
      Inr (v\<lparr>m_vocabularyStorage := e # std_sort OrderWordCounts es,
             m_mapWord2Index := fst (rebuild_maps 0 (e # std_sort OrderWordCounts es) (Map.empty, Map.empty)),
             m_mapIndex2Word := snd (rebuild_maps 0 (e # std_sort OrderWordCounts es) (Map.empty, Map.empty))\<rparr>)"
    unfolding SortVocabularyByFrequency_def i Let_def
    by (simp add: assms(2) in_range_def s2 del: std_sort.simps rebuild_maps.simps)
  then show ?thesis
    by (simp add: assms(2) std_sort_descending std_sort_mset)
qed


text \<open>
  The two vectors that are sorted when the function runs twice on the small corpus have
  pairwise different counts, so each has one arrangement in descending order only.
\<close>

lemma small_corpus_first_sort:
  assumes "mset ys = mset [\<lparr>word = ''a'', cn = 2, prob = 0::real, classIndex = 0\<rparr>,
                           \<lparr>word = ''b'', cn = 1, prob = 0, classIndex = 0\<rparr>,
                           \<lparr>word = ''</s>'', cn = INT_MAX, prob = 0, classIndex = 0\<rparr>]"
    and "sorted_wrt (\<lambda>a b. cn b \<le> cn a) ys"
  shows "ys = [\<lparr>word = ''</s>'', cn = INT_MAX, prob = 0, classIndex = 0\<rparr>,
               \<lparr>word = ''a'', cn = 2, prob = 0, classIndex = 0\<rparr>,
               \<lparr>word = ''b'', cn = 1, prob = 0, classIndex = 0\<rparr>]"
  using descending_unique[OF assms] by (simp add: INT_MAX_def OrderWordCounts_def)

lemma small_corpus_second_sort:
  assumes "mset ys = mset [\<lparr>word = ''</s>'', cn = INT_MAX, prob = 0::real, classIndex = 0\<rparr>,
                           \<lparr>word = ''a'', cn = 2, prob = 0, classIndex = 0\<rparr>,
                           \<lparr>word = ''b'', cn = 3, prob = 0, classIndex = 0\<rparr>]"
    and "sorted_wrt (\<lambda>a b. cn b \<le> cn a) ys"
  shows "ys = [\<lparr>word = ''</s>'', cn = INT_MAX, prob = 0, classIndex = 0\<rparr>,
               \<lparr>word = ''b'', cn = 3, prob = 0, classIndex = 0\<rparr>,
               \<lparr>word = ''a'', cn = 2, prob = 0, classIndex = 0\<rparr>]"
  using descending_unique[OF assms] by (simp add: INT_MAX_def OrderWordCounts_def)

subsection \<open>Sorting by frequency on the small corpus\<close>

lemmas eval_defs = small_vocabulary_def small_corpus_def empty_vocabulary_def
  AddWordToVocabulary_def SearchWordInVocabulary_def in_range_def and_then_def word_counts_def
  count_of_def SortVocabularyByFrequency_def OrderWordCounts_def INT_MAX_def eos_def Let_def

lemma small_vocabulary_counts:
  "word_counts small_vocabulary = Inr [(''a'', 2), (''b'', 1), (''</s>'', 3)]"
  by (simp add: eval_defs)

text \<open>
  Claim C1 says that after \<open>SortVocabularyByFrequency\<close> the end-of-sequence token is at
  index 0 and the counts from index 1 on are in descending order. The function looks up
  the index of \<^verbatim>\<open></s>\<close> before the sort and writes the saved count back to that index
  after the sort, where another entry stands by then unless \<^verbatim>\<open></s>\<close> was at index 0 already.
  On the small corpus \<^verbatim>\<open></s>\<close> has index 2 and count 3: after the call the count of \<^verbatim>\<open></s>\<close> is
  still \<^verbatim>\<open>INT_MAX\<close>, the entry at index 2 has received the count 3, and the counts at the
  indices 1 and 2 are 2 and 3, in ascending order.
\<close>

theorem SortVocabularyByFrequency_order_lost:
  "word_counts (and_then small_vocabulary SortVocabularyByFrequency) =
     Inr [(''</s>'', 2147483647), (''a'', 2), (''b'', 3)]"
  by (simp add: eval_defs)

text \<open>
  Claim C2 says that the sort leaves the count of every word as it was. On the small
  corpus the counts of \<^verbatim>\<open></s>\<close>, \<^verbatim>\<open>a\<close> and \<^verbatim>\<open>b\<close> are 3, 2 and 1 before the call; after it
  \<^verbatim>\<open></s>\<close> has \<^verbatim>\<open>INT_MAX\<close> and \<^verbatim>\<open>b\<close> has 3, because the count of \<^verbatim>\<open></s>\<close> is restored at the
  index \<^verbatim>\<open></s>\<close> had before the sort.
\<close>

theorem SortVocabularyByFrequency_counts_changed:
  "map_sum id (\<lambda>v. map (count_of v) [''</s>'', ''a'', ''b'']) small_vocabulary =
     Inr [Some 3, Some 2, Some 1] \<and>
   map_sum id (\<lambda>v. map (count_of v) [''</s>'', ''a'', ''b''])
     (and_then small_vocabulary SortVocabularyByFrequency) =
     Inr [Some 2147483647, Some 2, Some 3]"
  by (simp add: eval_defs)

text \<open>
  Claim C6 says that a second run of \<open>SortVocabularyByFrequency\<close> changes nothing. On
  the small corpus the first run leaves the words in the order \<^verbatim>\<open></s> a b\<close> with the
  count 3 on \<^verbatim>\<open>b\<close>, and the second run, sorting by these counts, gives \<^verbatim>\<open></s> b a\<close>: the
  index of \<^verbatim>\<open>a\<close> goes from 1 to 2 and that of \<^verbatim>\<open>b\<close> from 2 to 1.
\<close>

theorem SortVocabularyByFrequency_second_run_differs:
  "map_sum id (\<lambda>v. (map word (m_vocabularyStorage v), map (m_mapWord2Index v) [''</s>'', ''a'', ''b'']))
     (and_then small_vocabulary SortVocabularyByFrequency) =
     Inr ([''</s>'', ''a'', ''b''], [Some 0, Some 1, Some 2]) \<and>
   map_sum id (\<lambda>v. (map word (m_vocabularyStorage v), map (m_mapWord2Index v) [''</s>'', ''a'', ''b'']))
     (and_then (and_then small_vocabulary SortVocabularyByFrequency) SortVocabularyByFrequency) =
     Inr ([''</s>'', ''b'', ''a''], [Some 0, Some 2, Some 1])"
  by (simp add: eval_defs)


subsection \<open>Properties of the class assignment\<close>

lemma balance_classes_Cons:
  "balance_classes ops n b dd df a (e # es) =
     e\<lparr>prob := d_of_int ops 0, classIndex := a\<rparr> #
     balance_classes ops n b dd (next_df ops b dd df e)
       (if d_gt ops (next_df ops b dd df e) (d_div ops (d_of_int ops (a + 1)) (d_of_int ops n)) \<and> a < n - 1
        then a + 1 else a) es"
  by (simp add: Let_def)

lemma balance_classes_range:
  "a \<le> n - 1 \<Longrightarrow> e \<in> set (balance_classes ops n b dd df a s) \<Longrightarrow>
   a \<le> classIndex e \<and> classIndex e \<le> n - 1"
proof (induction s arbitrary: df a)
  case Nil
  then show ?case by simp
next
  case (Cons x xs)
  let ?df = "next_df ops b dd df x"
  let ?a = "if d_gt ops ?df (d_div ops (d_of_int ops (a + 1)) (d_of_int ops n)) \<and> a < n - 1
            then a + 1 else a"
  have a': "a \<le> ?a" "?a \<le> n - 1" using Cons.prems(1) by auto
  from Cons.prems(2)
  consider "e = x\<lparr>prob := d_of_int ops 0, classIndex := a\<rparr>"
    | "e \<in> set (balance_classes ops n b dd ?df ?a xs)"
    unfolding balance_classes_Cons by auto
  then show ?case
  proof cases
    case 1
    then show ?thesis using Cons.prems(1) by simp
  next
    case 2
    from Cons.IH[OF a'(2) 2] a'(1) show ?thesis by linarith
  qed
qed

lemma balance_classes_fields:
  "map word (balance_classes ops n b dd df a s) = map word s \<and>
   map cn (balance_classes ops n b dd df a s) = map cn s"
proof (induction s arbitrary: df a)
  case Nil
  then show ?case by simp
next
  case (Cons x xs)
  show ?case unfolding balance_classes_Cons using Cons.IH by simp
qed

lemma members_filter:
  "members c i es = map (\<lambda>k. i + int k) (filter (\<lambda>k. classIndex (es ! k) = c) [0..<length es])"
proof (induction es arbitrary: i)
  case Nil
  then show ?case by simp
next
  case (Cons e es)
  have "[0..<length (e # es)] = 0 # map Suc [0..<length es]"
    by (simp add: upt_conv_Cons map_Suc_upt del: upt_Suc)
  then show ?case
    using Cons.IH[of "i + 1"] by (simp add: filter_map o_def del: upt_Suc)
qed

lemma members_set:
  "set (members c i es) = {i + int k |k. k < length es \<and> classIndex (es ! k) = c}"
  by (auto simp: members_filter)


lemma members_sorted: "sorted (members c i es)"
proof -
  have "sorted_wrt (<) (filter (\<lambda>k. classIndex (es ! k) = c) [0..<length es])"
    by (rule sorted_wrt_filter) simp
  then have "sorted_wrt (\<lambda>x y. i + int x \<le> i + int y) (filter (\<lambda>k. classIndex (es ! k) = c) [0..<length es])"
    by (rule sorted_wrt_mono_rel[rotated]) simp
  then show ?thesis
    by (simp add: members_filter sorted_wrt_map)
qed

lemma in_range_update [simp]: "in_range (cw[k := x]) c = in_range cw c"
  by (simp add: in_range_def)

lemma push_words_ok:
  "\<forall>e \<in> set es. in_range cw (classIndex e) \<Longrightarrow>
   push_words i es cw = Inr (map (\<lambda>c. cw ! c @ members (int c) i es) [0..<length cw])"
proof (induction es arbitrary: i cw)
  case Nil
  then show ?case by (simp add: map_nth)
next
  case (Cons e es)
  let ?k = "nat (classIndex e)"
  let ?cw = "cw[?k := cw ! ?k @ [i]]"
  have r: "in_range cw (classIndex e)" and rs: "\<forall>x \<in> set es. in_range ?cw (classIndex x)"
    using Cons.prems by simp_all
  have "push_words i (e # es) cw = push_words (i + 1) es ?cw"
    using r by (simp add: Let_def)
  also have "\<dots> = Inr (map (\<lambda>c. ?cw ! c @ members (int c) (i + 1) es) [0..<length ?cw])"
    using rs by (rule Cons.IH)
  also have "map (\<lambda>c. ?cw ! c @ members (int c) (i + 1) es) [0..<length ?cw] =
             map (\<lambda>c. cw ! c @ members (int c) i (e # es)) [0..<length cw]"
  proof (rule nth_equalityI)
    show "length (map (\<lambda>c. ?cw ! c @ members (int c) (i + 1) es) [0..<length ?cw]) =
          length (map (\<lambda>c. cw ! c @ members (int c) i (e # es)) [0..<length cw])"
      by simp
  next
    fix c assume "c < length (map (\<lambda>c. ?cw ! c @ members (int c) (i + 1) es) [0..<length ?cw])"
    then have c: "c < length cw" by simp
    have "(c = ?k) = (classIndex e = int c)"
      using r by (auto simp: in_range_def)
    then show "map (\<lambda>c. ?cw ! c @ members (int c) (i + 1) es) [0..<length ?cw] ! c =
               map (\<lambda>c. cw ! c @ members (int c) i (e # es)) [0..<length cw] ! c"
      using c by (auto simp: nth_list_update)
  qed
  finally show ?case .
qed

lemma push_words_fail:
  "\<not> (\<forall>e \<in> set es. in_range cw (classIndex e)) \<Longrightarrow> push_words i es cw = Inl OutOfRange"
proof (induction es arbitrary: i cw)
  case Nil
  then show ?case by simp
next
  case (Cons e es)
  show ?case
  proof (cases "in_range cw (classIndex e)")
    case True
    then have "\<not> (\<forall>x \<in> set es. in_range (cw[nat (classIndex e) := cw ! nat (classIndex e) @ [i]]) (classIndex x))"
      using Cons.prems by simp
    then show ?thesis using True Cons.IH by (simp add: Let_def)
  next
    case False
    then show ?thesis by (simp add: Let_def)
  qed
qed



lemma push_words_groups:
  "\<forall>e \<in> set s. 0 \<le> classIndex e \<and> classIndex e < int n \<Longrightarrow>
   push_words 0 s (replicate n []) = Inr (class_groups n s)"
proof -
  assume "\<forall>e \<in> set s. 0 \<le> classIndex e \<and> classIndex e < int n"
  then have "\<forall>e \<in> set s. in_range (replicate n ([]::int list)) (classIndex e)"
    by (simp add: in_range_def)
  then have "push_words 0 s (replicate n []) =
      Inr (map (\<lambda>c. replicate n [] ! c @ members (int c) 0 s) [0..<length (replicate n ([]::int list))])"
    by (rule push_words_ok)
  also have "map (\<lambda>c. replicate n [] ! c @ members (int c) 0 s) [0..<length (replicate n ([]::int list))] =
      class_groups n s"
    by (simp add: class_groups_def)
  finally show ?thesis .
qed

lemma push_words_out_of_range:
  "\<not> (\<forall>e \<in> set s. 0 \<le> classIndex e \<and> classIndex e < int n) \<Longrightarrow>
   push_words 0 s (replicate n []) = Inl OutOfRange"
  by (rule push_words_fail) (simp add: in_range_def)

lemma class_groups_nth: "c < n \<Longrightarrow> class_groups n s ! c = members (int c) 0 s"
  by (simp add: class_groups_def)

lemma class_groups_length: "length (class_groups n s) = n"
  by (simp add: class_groups_def)

lemma class_groups_member:
  "c < n \<Longrightarrow> i < length s \<Longrightarrow> (int i \<in> set (class_groups n s ! c)) = (classIndex (s ! i) = int c)"
  by (auto simp: class_groups_nth members_set)



lemma AssignWordsToClasses_cases:
  assumes "0 \<le> m_numClasses v"
  shows "AssignWordsToClasses ops v =
    (if \<not> (\<forall>e \<in> set (assign_class_ids ops v). 0 \<le> classIndex e \<and> classIndex e < m_numClasses v)
     then Inl OutOfRange
     else if [] \<in> set (class_groups (nat (m_numClasses v)) (assign_class_ids ops v))
     then Inl AssertionFailed
     else Inr (v\<lparr>m_vocabularyStorage := assign_class_ids ops v,
                m_classWords := class_groups (nat (m_numClasses v)) (assign_class_ids ops v)\<rparr>))"
proof (cases "\<forall>e \<in> set (assign_class_ids ops v). 0 \<le> classIndex e \<and> classIndex e < int (nat (m_numClasses v))")
  case True
  show ?thesis
    using assms True push_words_groups[OF True]
    by (simp add: AssignWordsToClasses_def Let_def)
next
  case False
  show ?thesis
    using assms False push_words_out_of_range[OF False]
    by (simp add: AssignWordsToClasses_def Let_def)
qed

lemma assign_class_ids_frequency:
  "\<not> m_useClassFile v \<Longrightarrow>
   assign_class_ids ops v =
     balance_classes ops (m_numClasses v) (total_count (m_vocabularyStorage v))
       (sqrt_total ops (total_count (m_vocabularyStorage v)) (m_vocabularyStorage v))
       (d_of_int ops 0) 0 (m_vocabularyStorage v)"
  by (simp add: assign_class_ids_def Let_def)

lemma frequency_class_range:
  assumes "\<not> m_useClassFile v" and "1 \<le> m_numClasses v"
  shows "\<forall>e \<in> set (assign_class_ids ops v). 0 \<le> classIndex e \<and> classIndex e \<le> m_numClasses v - 1"
proof
  fix e assume "e \<in> set (assign_class_ids ops v)"
  then have e: "e \<in> set (balance_classes ops (m_numClasses v) (total_count (m_vocabularyStorage v))
      (sqrt_total ops (total_count (m_vocabularyStorage v)) (m_vocabularyStorage v))
      (d_of_int ops 0) 0 (m_vocabularyStorage v))"
    using assms(1) by (simp add: assign_class_ids_frequency)
  have "0 \<le> m_numClasses v - 1" using assms(2) by simp
  from balance_classes_range[OF this e]
  show "0 \<le> classIndex e \<and> classIndex e \<le> m_numClasses v - 1" .
qed


lemma sqrt_9: "sqrt 9 = 3"
  using real_sqrt_abs[of 3] by simp

lemma nine_token_storage:
  "m_vocabularyStorage nine_token_vocabulary =
     [\<lparr>word = ''</s>'', cn = 4, prob = 0, classIndex = 0\<rparr>,
      \<lparr>word = ''a'', cn = 4, prob = 0, classIndex = 0\<rparr>,
      \<lparr>word = ''b'', cn = 1, prob = 0, classIndex = 0\<rparr>]"
  "m_numClasses nine_token_vocabulary = 2" "\<not> m_useClassFile nine_token_vocabulary"
  by (simp_all add: nine_token_vocabulary_def eval_defs ideal_double_def)

lemma nine_token_classes:
  "assign_class_ids ideal_double nine_token_vocabulary =
     [\<lparr>word = ''</s>'', cn = 4, prob = 0, classIndex = 0\<rparr>,
      \<lparr>word = ''a'', cn = 4, prob = 0, classIndex = 0\<rparr>,
      \<lparr>word = ''b'', cn = 1, prob = 0, classIndex = 1\<rparr>]"
  by (simp add: assign_class_ids_def nine_token_storage total_count_def sqrt_total_def sqrt_share_def
     next_df_def ideal_double_def Let_def real_sqrt_divide sqrt_9)

lemma nine_token_groups:
  "class_groups 2 (assign_class_ids ideal_double nine_token_vocabulary) = [ [0, 1], [2] ]"
  by (simp add: nine_token_classes class_groups_def numeral_2_eq_2)


lemma members_empty_iff:
  "(members c 0 s = []) = (c \<notin> classIndex ` set s)"
proof -
  have "(members c 0 s = []) = (set (members c 0 s) = {})" by simp
  also have "\<dots> = (\<forall>k < length s. classIndex (s ! k) \<noteq> c)"
    by (auto simp: members_set)
  also have "\<dots> = (c \<notin> classIndex ` set s)"
    by (force simp: in_set_conv_nth)
  finally show ?thesis .
qed

lemma class_groups_empty_iff:
  "([] \<in> set (class_groups n s)) = (\<exists>c < n. int c \<notin> classIndex ` set s)"
proof -
  have "([] \<in> set (class_groups n s)) = (\<exists>c < n. members (int c) 0 s = [])"
    by (force simp: class_groups_def)
  then show ?thesis by (simp add: members_empty_iff)
qed

lemma balance_classes_length: "length (balance_classes ops n b dd df a s) = length s"
  using balance_classes_fields[of ops n b dd df a s] by (auto dest: map_eq_imp_length_eq)

lemma compact_classes_length: "length (compact_classes ops cnum l s) = length s"
  by (induction s arbitrary: cnum l) auto

lemma assign_class_ids_length: "length (assign_class_ids ops v) = length (m_vocabularyStorage v)"
  by (simp add: assign_class_ids_def Let_def balance_classes_length compact_classes_length)

lemma too_many_classes:
  assumes "length s < n"
  shows "\<exists>c < n. int c \<notin> classIndex ` set s"
proof (rule ccontr)
  assume "\<not> (\<exists>c < n. int c \<notin> classIndex ` set s)"
  then have "int ` {0..<n} \<subseteq> classIndex ` set s" by auto
  then have "card (int ` {0..<n}) \<le> card (classIndex ` set s)"
    by (intro card_mono) simp_all
  also have "\<dots> \<le> card (set s)" by (rule card_image_le) simp
  also have "\<dots> \<le> length s" by (rule card_length)
  finally show False using assms by (simp add: card_image)
qed

text \<open>
  Claim C5, as the code has it. When \<open>AssignWordsToClasses\<close> returns, in either mode,
  \<open>m_classWords\<close> has \<open>m_numClasses\<close> groups and every class from 0 to
  \<open>m_numClasses - 1\<close> has a member word. When all assigned class indices are positions of
  \<open>m_classWords\<close> and some class has no member, the call stops at the assertion. With
  frequency-based classes the assertion does fire on vocabularies that are not empty: it
  fires whenever there are more classes than words. With a single class and a vocabulary
  that is not empty the call returns.
\<close>

theorem AssignWordsToClasses_no_empty_class:
  "(AssignWordsToClasses ops v = Inr v' \<longrightarrow>
      0 \<le> m_numClasses v \<and> length (m_classWords v') = nat (m_numClasses v) \<and>
      (\<forall>c < nat (m_numClasses v). \<exists>i < length (m_vocabularyStorage v').
         classIndex (m_vocabularyStorage v' ! i) = int c \<and> int i \<in> set (m_classWords v' ! c))) \<and>
   (0 \<le> m_numClasses v \<and>
    (\<forall>e \<in> set (assign_class_ids ops v). 0 \<le> classIndex e \<and> classIndex e < m_numClasses v) \<and>
    (\<exists>c < nat (m_numClasses v). int c \<notin> classIndex ` set (assign_class_ids ops v)) \<longrightarrow>
      AssignWordsToClasses ops v = Inl AssertionFailed) \<and>
   (\<not> m_useClassFile v \<and> 1 \<le> m_numClasses v \<and>
    int (length (m_vocabularyStorage v)) < m_numClasses v \<longrightarrow>
      AssignWordsToClasses ops v = Inl AssertionFailed) \<and>
   (\<not> m_useClassFile v \<and> m_numClasses v = 1 \<and> m_vocabularyStorage v \<noteq> [] \<longrightarrow>
      AssignWordsToClasses ops v =
        Inr (v\<lparr>m_vocabularyStorage := assign_class_ids ops v,
               m_classWords := class_groups 1 (assign_class_ids ops v)\<rparr>))"
proof (intro conjI impI)
  let ?s = "assign_class_ids ops v" and ?n = "nat (m_numClasses v)"
  {
    assume r: "AssignWordsToClasses ops v = Inr v'"
    show nn: "0 \<le> m_numClasses v"
      using r by (auto simp: AssignWordsToClasses_def Let_def split: if_splits)
    from r have v': "v' = v\<lparr>m_vocabularyStorage := ?s, m_classWords := class_groups ?n ?s\<rparr>"
      and ne: "[] \<notin> set (class_groups ?n ?s)"
      unfolding AssignWordsToClasses_cases[OF nn] by (auto split: if_splits)
    show "length (m_classWords v') = ?n"
      by (simp add: v' class_groups_length)
    show "\<forall>c < ?n. \<exists>i < length (m_vocabularyStorage v').
         classIndex (m_vocabularyStorage v' ! i) = int c \<and> int i \<in> set (m_classWords v' ! c)"
    proof (intro allI impI)
      fix c assume c: "c < ?n"
      then have "int c \<in> classIndex ` set ?s"
        using ne by (auto simp: class_groups_empty_iff)
      then obtain i where i: "i < length ?s" "classIndex (?s ! i) = int c"
        by (auto simp: in_set_conv_nth)
      then have "int i \<in> set (class_groups ?n ?s ! c)"
        using c by (simp add: class_groups_member)
      then show "\<exists>i < length (m_vocabularyStorage v').
         classIndex (m_vocabularyStorage v' ! i) = int c \<and> int i \<in> set (m_classWords v' ! c)"
        using i by (auto simp: v')
    qed
  }
  {
    assume a: "0 \<le> m_numClasses v \<and>
      (\<forall>e \<in> set ?s. 0 \<le> classIndex e \<and> classIndex e < m_numClasses v) \<and>
      (\<exists>c < ?n. int c \<notin> classIndex ` set ?s)"
    then have "[] \<in> set (class_groups ?n ?s)"
      by (simp add: class_groups_empty_iff)
    then show "AssignWordsToClasses ops v = Inl AssertionFailed"
      using a by (simp add: AssignWordsToClasses_cases)
  }
  {
    assume a: "\<not> m_useClassFile v \<and> 1 \<le> m_numClasses v \<and>
      int (length (m_vocabularyStorage v)) < m_numClasses v"
    then have f: "\<not> m_useClassFile v" and n1: "1 \<le> m_numClasses v" by simp_all
    note t = frequency_class_range[OF f n1, of ops]
    have range: "\<forall>e \<in> set ?s. 0 \<le> classIndex e \<and> classIndex e < m_numClasses v"
      using t by auto
    have "length ?s < ?n"
      using a by (simp add: assign_class_ids_length) linarith
    then have "\<exists>c < ?n. int c \<notin> classIndex ` set ?s"
      by (rule too_many_classes)
    then have "[] \<in> set (class_groups ?n ?s)"
      by (simp add: class_groups_empty_iff)
    then show "AssignWordsToClasses ops v = Inl AssertionFailed"
      using n1 range by (simp add: AssignWordsToClasses_cases)
  }
  {
    assume a: "\<not> m_useClassFile v \<and> m_numClasses v = 1 \<and> m_vocabularyStorage v \<noteq> []"
    then have f: "\<not> m_useClassFile v" and n1: "1 \<le> m_numClasses v" by simp_all
    note t = frequency_class_range[OF f n1, of ops]
    have range: "\<forall>e \<in> set ?s. classIndex e = 0"
      using t a by auto
    have "?s \<noteq> []"
      using a assign_class_ids_length[of ops v] by auto
    then have "0 \<in> classIndex ` set ?s"
      using range by (cases ?s) auto
    then have "[] \<notin> set (class_groups 1 ?s)"
      by (simp add: class_groups_empty_iff)
    then show "AssignWordsToClasses ops v =
        Inr (v\<lparr>m_vocabularyStorage := ?s, m_classWords := class_groups 1 ?s\<rparr>)"
      using a range by (simp add: AssignWordsToClasses_cases)
  }
qed


lemma one_word_storage:
  "m_vocabularyStorage one_word_vocabulary = [\<lparr>word = ''</s>'', cn = 1, prob = 0, classIndex = 0\<rparr>]"
  "m_numClasses one_word_vocabulary = 2" "\<not> m_useClassFile one_word_vocabulary"
  by (simp_all add: one_word_vocabulary_def eval_defs ideal_double_def)

text \<open>
  Claim C5 says that with frequency-based classes the assertion never fires when the
  vocabulary is not empty and there is at least one class. The vocabulary with the
  single word \<^verbatim>\<open></s>\<close> and two classes puts its word into class 0 and leaves class 1
  empty: the assertion fires.
\<close>

theorem AssignWordsToClasses_assertion_fires:
  "m_vocabularyStorage one_word_vocabulary \<noteq> [] \<and> \<not> m_useClassFile one_word_vocabulary \<and>
   1 \<le> m_numClasses one_word_vocabulary \<and>
   AssignWordsToClasses ideal_double one_word_vocabulary = Inl AssertionFailed"
  by (simp add: one_word_storage AssignWordsToClasses_def assign_class_ids_def Let_def in_range_def
      numeral_2_eq_2)

theorem AssignWordsToClasses_no_empty_class_witness:
  "AssignWordsToClasses ideal_double nine_token_vocabulary =
     Inr (nine_token_vocabulary
            \<lparr>m_vocabularyStorage := assign_class_ids ideal_double nine_token_vocabulary,
             m_classWords := [ [0, 1], [2] ]\<rparr>) \<and>
   (\<exists>i < 3. classIndex (assign_class_ids ideal_double nine_token_vocabulary ! i) = 0 \<and>
            int i \<in> set [0, 1]) \<and>
   (\<exists>i < 3. classIndex (assign_class_ids ideal_double nine_token_vocabulary ! i) = 1 \<and>
            int i \<in> set [2]) \<and>
   \<not> m_useClassFile one_word_vocabulary \<and> 1 \<le> m_numClasses one_word_vocabulary \<and>
   int (length (m_vocabularyStorage one_word_vocabulary)) < m_numClasses one_word_vocabulary \<and>
   AssignWordsToClasses ideal_double one_word_vocabulary = Inl AssertionFailed"
proof -
  let ?v' = "nine_token_vocabulary
            \<lparr>m_vocabularyStorage := assign_class_ids ideal_double nine_token_vocabulary,
             m_classWords := [ [0, 1], [2] ]\<rparr>"
  have "\<forall>e \<in> set (assign_class_ids ideal_double nine_token_vocabulary).
      0 \<le> classIndex e \<and> classIndex e < 2"
    by (simp add: nine_token_classes)
  then have r: "AssignWordsToClasses ideal_double nine_token_vocabulary = Inr ?v'"
    using nine_token_groups by (simp add: AssignWordsToClasses_cases nine_token_storage)
  have h: "\<not> m_useClassFile one_word_vocabulary \<and> 1 \<le> m_numClasses one_word_vocabulary \<and>
      int (length (m_vocabularyStorage one_word_vocabulary)) < m_numClasses one_word_vocabulary"
    by (simp add: one_word_storage)
  note t = AssignWordsToClasses_no_empty_class[of ideal_double nine_token_vocabulary ?v']
  note u = AssignWordsToClasses_no_empty_class[of ideal_double one_word_vocabulary]
  have n: "nat (m_numClasses nine_token_vocabulary) = 2"
    by (simp add: nine_token_storage)
  have l: "length (assign_class_ids ideal_double nine_token_vocabulary) = 3"
    by (simp add: nine_token_classes)
  have 1: "\<forall>c < 2. \<exists>i < 3. classIndex (assign_class_ids ideal_double nine_token_vocabulary ! i) = int c \<and>
                     int i \<in> set ([ [0, 1], [2] ] ! c)"
    using t[THEN conjunct1, rule_format, OF r] unfolding n by (simp add: l)
  have 10: "\<exists>i < 3. classIndex (assign_class_ids ideal_double nine_token_vocabulary ! i) = 0 \<and>
            int i \<in> set [0, 1]"
    using 1[rule_format, of 0] by simp
  have 11: "\<exists>i < 3. classIndex (assign_class_ids ideal_double nine_token_vocabulary ! i) = 1 \<and>
            int i \<in> set [2]"
    using 1[rule_format, of 1] by simp
  have 2: "AssignWordsToClasses ideal_double one_word_vocabulary = Inl AssertionFailed"
    using u[THEN conjunct2, THEN conjunct2, THEN conjunct1, rule_format, OF h] .
  show ?thesis
    using r 10 11 h 2 by simp
qed


lemma AssignWordsToClasses_storage:
  "AssignWordsToClasses ops v = Inr v' \<Longrightarrow> m_vocabularyStorage v' = assign_class_ids ops v"
  by (auto simp: AssignWordsToClasses_def Let_def split: if_splits sum.splits)


subsection \<open>Properties of the renumbering of classes from a file\<close>

lemma compact_classes_Cons:
  "compact_classes ops cnum l (e # es) =
     e\<lparr>prob := d_of_int ops 0, classIndex := (if classIndex e \<noteq> l then cnum + 1 else cnum)\<rparr> #
     compact_classes ops (if classIndex e \<noteq> l then cnum + 1 else cnum) (classIndex e) es"
  by simp

lemma compact_classes_fields:
  "map word (compact_classes ops cnum l s) = map word s \<and>
   map cn (compact_classes ops cnum l s) = map cn s"
  by (induction s arbitrary: cnum l) auto

lemma compact_classes_head:
  "s \<noteq> [] \<Longrightarrow>
   classIndex (compact_classes ops cnum l s ! 0) = (if classIndex (s ! 0) \<noteq> l then cnum + 1 else cnum)"
  by (cases s) auto

lemma compact_classes_step:
  "Suc i < length s \<Longrightarrow>
   classIndex (compact_classes ops cnum l s ! Suc i) =
   classIndex (compact_classes ops cnum l s ! i) +
     (if classIndex (s ! Suc i) \<noteq> classIndex (s ! i) then 1 else 0)"
proof (induction s arbitrary: i cnum l)
  case Nil
  then show ?case by simp
next
  case (Cons e es)
  let ?c = "if classIndex e \<noteq> l then cnum + 1 else cnum"
  show ?case
  proof (cases i)
    case 0
    then have "es \<noteq> []" using Cons.prems by auto
    from compact_classes_head[OF this, of ops ?c "classIndex e"]
    show ?thesis
      unfolding compact_classes_Cons using 0 by simp
  next
    case (Suc k)
    then have "Suc k < length es" using Cons.prems by simp
    from Cons.IH[OF this, of ?c "classIndex e"]
    show ?thesis
      unfolding compact_classes_Cons using Suc by simp
  qed
qed

text \<open>A counter \<open>ids\<close> that goes up by one exactly where \<open>cs\<close> changes.\<close>

lemma counter_mono:
  fixes ids cs :: "int list"
  assumes "\<forall>i. Suc i < n \<longrightarrow> ids ! Suc i = ids ! i + (if cs ! Suc i \<noteq> cs ! i then 1 else 0)"
  shows "i \<le> j \<Longrightarrow> j < n \<Longrightarrow> ids ! i \<le> ids ! j"
proof (induction j)
  case 0
  then show ?case by simp
next
  case (Suc j)
  show ?case
  proof (cases "i = Suc j")
    case True
    then show ?thesis by simp
  next
    case False
    then have "ids ! i \<le> ids ! j" using Suc by simp
    moreover have "ids ! j \<le> ids ! Suc j" using assms Suc.prems by simp
    ultimately show ?thesis by simp
  qed
qed

lemma counter_eq_iff:
  fixes ids cs :: "int list"
  assumes "\<forall>i. Suc i < n \<longrightarrow> ids ! Suc i = ids ! i + (if cs ! Suc i \<noteq> cs ! i then 1 else 0)"
  shows "i \<le> j \<Longrightarrow> j < n \<Longrightarrow>
    (ids ! i = ids ! j) = (\<forall>k. i \<le> k \<and> k < j \<longrightarrow> cs ! Suc k = cs ! k)"
proof (induction j)
  case 0
  then show ?case by simp
next
  case (Suc j)
  show ?case
  proof (cases "i = Suc j")
    case True
    then show ?thesis by simp
  next
    case False
    then have ij: "i \<le> j" and jn: "j < n" using Suc.prems by simp_all
    have IH: "(ids ! i = ids ! j) = (\<forall>k. i \<le> k \<and> k < j \<longrightarrow> cs ! Suc k = cs ! k)"
      using Suc.IH ij jn by simp
    have le: "ids ! i \<le> ids ! j" using counter_mono[OF assms ij jn] .
    have st: "ids ! Suc j = ids ! j + (if cs ! Suc j \<noteq> cs ! j then 1 else 0)"
      using assms Suc.prems by simp
    have "(ids ! i = ids ! Suc j) = (ids ! i = ids ! j \<and> cs ! Suc j = cs ! j)"
      using le st by auto
    also have "\<dots> = (\<forall>k. i \<le> k \<and> k < Suc j \<longrightarrow> cs ! Suc k = cs ! k)"
      unfolding IH using ij by (auto simp: less_Suc_eq)
    finally show ?thesis .
  qed
qed

lemma run_constant:
  fixes cs :: "int list"
  shows "\<forall>k. i \<le> k \<and> k < j \<longrightarrow> cs ! Suc k = cs ! k \<Longrightarrow> i \<le> j \<Longrightarrow> cs ! i = cs ! j"
proof (induction j)
  case 0
  then show ?case by simp
next
  case (Suc j)
  show ?case
  proof (cases "i = Suc j")
    case True
    then show ?thesis by simp
  next
    case False
    then have "i \<le> j" using Suc.prems by simp
    then have "cs ! i = cs ! j" using Suc by simp
    moreover have "cs ! Suc j = cs ! j" using Suc.prems \<open>i \<le> j\<close> by simp
    ultimately show ?thesis by simp
  qed
qed

lemma contiguous_run:
  assumes "contiguous cs" and "i \<le> j" and "j < length cs" and "cs ! i = cs ! j"
  shows "\<forall>k. i \<le> k \<and> k < j \<longrightarrow> cs ! Suc k = cs ! k"
proof (intro allI impI)
  fix k assume k: "i \<le> k \<and> k < j"
  have mid: "cs ! m = cs ! i" if "i \<le> m" "m \<le> j" for m
  proof (cases "m = i \<or> m = j")
    case True
    then show ?thesis using assms(4) by auto
  next
    case False
    then have "i < m" "m < j" using that by auto
    then show ?thesis
      using assms(1,3,4) unfolding contiguous_def by blast
  qed
  show "cs ! Suc k = cs ! k"
    using mid[of "Suc k"] mid[of k] k by simp
qed

lemma counter_same_class:
  fixes ids cs :: "int list"
  assumes "\<forall>i. Suc i < length cs \<longrightarrow> ids ! Suc i = ids ! i + (if cs ! Suc i \<noteq> cs ! i then 1 else 0)"
    and "contiguous cs" and "i < length cs" and "j < length cs"
  shows "(ids ! i = ids ! j) = (cs ! i = cs ! j)"
proof -
  have le: "(ids ! a = ids ! b) = (cs ! a = cs ! b)" if "a \<le> b" "b < length cs" for a b
    using counter_eq_iff[OF assms(1) that] run_constant[of a b cs, OF _ that(1)]
      contiguous_run[OF assms(2) that] by blast
  show ?thesis
  proof (cases "i \<le> j")
    case True
    then show ?thesis using le assms(4) by simp
  next
    case False
    then have "j \<le> i" by simp
    from le[OF this assms(3)] show ?thesis by auto
  qed
qed

lemma counter_values:
  fixes ids cs :: "int list"
  assumes "\<forall>i. Suc i < n \<longrightarrow> ids ! Suc i = ids ! i + (if cs ! Suc i \<noteq> cs ! i then 1 else 0)"
    and "ids ! 0 = 0"
  shows "j < n \<Longrightarrow> (\<lambda>k. ids ! k) ` {0..j} = {0..ids ! j}"
proof (induction j)
  case 0
  then show ?case using assms(2) by simp
next
  case (Suc j)
  have IH: "(\<lambda>k. ids ! k) ` {0..j} = {0..ids ! j}" using Suc by simp
  have st: "ids ! Suc j = ids ! j \<or> ids ! Suc j = ids ! j + 1"
    using assms(1) Suc.prems by simp
  have nn: "0 \<le> ids ! j"
    using counter_mono[OF assms(1), of 0 j] assms(2) Suc.prems by simp
  have "(\<lambda>k. ids ! k) ` {0..Suc j} = insert (ids ! Suc j) ((\<lambda>k. ids ! k) ` {0..j})"
    by (simp add: atLeastAtMostSuc_conv)
  also have "\<dots> = insert (ids ! Suc j) {0..ids ! j}" by (simp only: IH)
  also have "\<dots> = {0..ids ! Suc j}" using st nn by auto
  finally show ?case .
qed

lemma counter_card:
  fixes ids cs :: "int list"
  assumes step: "\<forall>i. Suc i < length cs \<longrightarrow> ids ! Suc i = ids ! i + (if cs ! Suc i \<noteq> cs ! i then 1 else 0)"
    and cont: "contiguous cs" and len: "length ids = length cs"
  shows "card (set ids) = card (set cs)"
proof -
  let ?Z = "set (zip cs ids)"
  have same: "(ids ! i = ids ! j) = (cs ! i = cs ! j)" if "i < length cs" "j < length cs" for i j
    using counter_same_class[OF step cont that] .
  have "inj_on fst ?Z"
  proof (rule inj_onI)
    fix p q assume p: "p \<in> ?Z" and q: "q \<in> ?Z" and e: "fst p = fst q"
    from p obtain i where i: "i < length cs" "p = (cs ! i, ids ! i)"
      using len by (auto simp: in_set_zip)
    from q obtain j where j: "j < length cs" "q = (cs ! j, ids ! j)"
      using len by (auto simp: in_set_zip)
    show "p = q" using e i j same[OF i(1) j(1)] by simp
  qed
  then have 1: "card (fst ` ?Z) = card ?Z" by (rule card_image)
  have "inj_on snd ?Z"
  proof (rule inj_onI)
    fix p q assume p: "p \<in> ?Z" and q: "q \<in> ?Z" and e: "snd p = snd q"
    from p obtain i where i: "i < length cs" "p = (cs ! i, ids ! i)"
      using len by (auto simp: in_set_zip)
    from q obtain j where j: "j < length cs" "q = (cs ! j, ids ! j)"
      using len by (auto simp: in_set_zip)
    show "p = q" using e i j same[OF i(1) j(1)] by simp
  qed
  then have 2: "card (snd ` ?Z) = card ?Z" by (rule card_image)
  have "fst ` ?Z = set cs" "snd ` ?Z = set ids"
    using len by (simp_all flip: set_map)
  then show ?thesis using 1 2 by simp
qed

lemma counter_set:
  fixes ids cs :: "int list"
  assumes step: "\<forall>i. Suc i < length cs \<longrightarrow> ids ! Suc i = ids ! i + (if cs ! Suc i \<noteq> cs ! i then 1 else 0)"
    and cont: "contiguous cs" and len: "length ids = length cs"
    and start: "cs \<noteq> [] \<longrightarrow> ids ! 0 = 0"
  shows "set ids = {0..<int (card (set cs))}"
proof (cases "cs = []")
  case True
  then show ?thesis using len by simp
next
  case False
  then obtain m where m: "length cs = Suc m" by (cases cs) auto
  have li: "length ids = Suc m"
    using len m by simp
  have "set ids = (\<lambda>k. ids ! k) ` {0..m}"
  proof (intro set_eqI iffI)
    fix x assume "x \<in> set ids"
    then obtain i where "i < Suc m" "x = ids ! i"
      unfolding in_set_conv_nth li by blast
    then show "x \<in> (\<lambda>k. ids ! k) ` {0..m}"
      by (intro image_eqI[of _ _ i]) simp_all
  next
    fix x assume "x \<in> (\<lambda>k. ids ! k) ` {0..m}"
    then obtain i where "i \<le> m" "x = ids ! i" by auto
    then show "x \<in> set ids"
      using li by simp
  qed
  also have "\<dots> = {0..ids ! m}"
    using counter_values[OF step, of m] start False m by simp
  finally have s: "set ids = {0..ids ! m}" .
  have nn: "0 \<le> ids ! m"
    using counter_mono[OF step, of 0 m] start False m by simp
  have "int (card (set cs)) = int (card (set ids))"
    using counter_card[OF step cont len] by simp
  also have "\<dots> = ids ! m + 1"
    unfolding s using nn by simp
  finally have c: "int (card (set cs)) = ids ! m + 1" .
  have "{0..ids ! m} = {0..<ids ! m + 1}"
    by (rule atLeastLessThanPlusOne_atLeastAtMost_int[symmetric])
  then show ?thesis unfolding s c .
qed

lemma assign_class_ids_file:
  "m_useClassFile v \<Longrightarrow>
   assign_class_ids ops v = compact_classes ops (- 1) (- 1) (m_vocabularyStorage v)"
  by (simp add: assign_class_ids_def Let_def)

text \<open>
  Claim C7, as the code has it. With classes from a file, when entries of equal class
  index stand next to each other and the class index of the first entry is not \<open>- 1\<close>
  (the value the variable \<^verbatim>\<open>last\<close> starts with), the vector after the renumbering, which is
  the one \<open>AssignWordsToClasses\<close> returns when it returns, is this: the new class index of
  the first entry is 0, the new index of each further entry is that of the entry before it, plus one
  exactly if the old class indices of the two differ, and words and counts stay. So the
  new indices are in ascending order, they are exactly the numbers from 0 to \<open>k - 1\<close>
  where \<open>k\<close> is the number of different old indices, and two entries have the same new
  index exactly if they had the same old one.
\<close>

theorem external_classes_renumbered:
  assumes "m_useClassFile v"
    and "contiguous (map classIndex (m_vocabularyStorage v))"
    and "m_vocabularyStorage v \<noteq> [] \<longrightarrow> classIndex (m_vocabularyStorage v ! 0) \<noteq> - 1"
  shows "let s = m_vocabularyStorage v; r = assign_class_ids ops v in
    (\<forall>v'. AssignWordsToClasses ops v = Inr v' \<longrightarrow> m_vocabularyStorage v' = r) \<and>
    length r = length s \<and> map word r = map word s \<and> map cn r = map cn s \<and>
    (s \<noteq> [] \<longrightarrow> classIndex (r ! 0) = 0) \<and>
    (\<forall>i. Suc i < length s \<longrightarrow>
       classIndex (r ! Suc i) =
       classIndex (r ! i) + (if classIndex (s ! Suc i) \<noteq> classIndex (s ! i) then 1 else 0)) \<and>
    sorted (map classIndex r) \<and>
    classIndex ` set r = {0..<int (card (classIndex ` set s))} \<and>
    (\<forall>i < length s. \<forall>j < length s.
       (classIndex (r ! i) = classIndex (r ! j)) = (classIndex (s ! i) = classIndex (s ! j)))"
proof -
  let ?s = "m_vocabularyStorage v" and ?r = "assign_class_ids ops v"
  let ?cs = "map classIndex ?s" and ?ids = "map classIndex ?r"
  have r: "?r = compact_classes ops (- 1) (- 1) ?s"
    using assms(1) by (rule assign_class_ids_file)
  have len: "length ?r = length ?s"
    by (simp add: assign_class_ids_length)
  have fields: "map word ?r = map word ?s" "map cn ?r = map cn ?s"
    by (simp_all add: r compact_classes_fields)
  have start: "?s \<noteq> [] \<longrightarrow> classIndex (?r ! 0) = 0"
    using assms(3) by (simp add: r compact_classes_head)
  have step: "\<forall>i. Suc i < length ?s \<longrightarrow>
       classIndex (?r ! Suc i) =
       classIndex (?r ! i) + (if classIndex (?s ! Suc i) \<noteq> classIndex (?s ! i) then 1 else 0)"
    by (simp add: r compact_classes_step)
  have step': "\<forall>i. Suc i < length ?cs \<longrightarrow>
       ?ids ! Suc i = ?ids ! i + (if ?cs ! Suc i \<noteq> ?cs ! i then 1 else 0)"
    using step len by simp
  have len': "length ?ids = length ?cs" using len by simp
  have start': "?cs \<noteq> [] \<longrightarrow> ?ids ! 0 = 0"
    using start len by (cases ?r) auto
  have sorted: "sorted ?ids"
    unfolding sorted_iff_nth_mono
    using counter_mono[OF step'] len' by simp
  have "set ?ids = {0..<int (card (set ?cs))}"
    using step' assms(2) len' start' by (rule counter_set)
  then have vals: "classIndex ` set ?r = {0..<int (card (classIndex ` set ?s))}"
    by simp
  have same: "\<forall>i < length ?s. \<forall>j < length ?s.
       (classIndex (?r ! i) = classIndex (?r ! j)) = (classIndex (?s ! i) = classIndex (?s ! j))"
  proof (intro allI impI)
    fix i j assume i: "i < length ?s" and j: "j < length ?s"
    then have "(?ids ! i = ?ids ! j) = (?cs ! i = ?cs ! j)"
      using counter_same_class[OF step' assms(2), of i j] by simp
    then show "(classIndex (?r ! i) = classIndex (?r ! j)) = (classIndex (?s ! i) = classIndex (?s ! j))"
      using i j len by simp
  qed
  have ret: "\<forall>v'. AssignWordsToClasses ops v = Inr v' \<longrightarrow> m_vocabularyStorage v' = ?r"
    by (simp add: AssignWordsToClasses_storage)
  show ?thesis
    unfolding Let_def by (intro conjI ret len fields start step sorted vals same)
qed

text \<open>
  Claim C7 says that the counter starts at 0 and that the new class indices are exactly
  0 to \<open>k - 1\<close> whenever entries of equal class stand next to each other. The variable
  \<^verbatim>\<open>last\<close> starts at \<open>- 1\<close> and \<^verbatim>\<open>cnum\<close> at \<open>- 1\<close>: a first entry of class \<open>- 1\<close> looks like a
  repetition and receives \<open>- 1\<close>. For the two entries with the classes \<open>- 1\<close> and 0 the new
  indices are \<open>- 1\<close> and 0, and the grouping loop then reads \<open>m_classWords\<close> at \<open>- 1\<close>.
\<close>

theorem external_classes_start_at_minus_one:
  "m_useClassFile minus_one_vocabulary \<and>
   map classIndex (m_vocabularyStorage minus_one_vocabulary) = [- 1, 0] \<and>
   contiguous [- 1, 0] \<and>
   map classIndex (assign_class_ids ideal_double minus_one_vocabulary) = [- 1, 0] \<and>
   AssignWordsToClasses ideal_double minus_one_vocabulary = Inl OutOfRange"
  by (simp add: minus_one_vocabulary_def assign_class_ids_def empty_vocabulary_def
      AssignWordsToClasses_def in_range_def contiguous_def less_Suc_eq numeral_2_eq_2)

lemma file_class_storage:
  "m_useClassFile file_class_vocabulary"
  "m_vocabularyStorage file_class_vocabulary =
     [\<lparr>word = ''</s>'', cn = 3, prob = 0, classIndex = 7\<rparr>,
      \<lparr>word = ''a'', cn = 2, prob = 0, classIndex = 7\<rparr>,
      \<lparr>word = ''b'', cn = 1, prob = 0, classIndex = 3\<rparr>]"
  by (simp_all add: file_class_vocabulary_def empty_vocabulary_def)

theorem external_classes_renumbered_witness:
  "m_useClassFile file_class_vocabulary \<and>
   map classIndex (m_vocabularyStorage file_class_vocabulary) = [7, 7, 3] \<and>
   contiguous [7, 7, 3] \<and>
   map classIndex (assign_class_ids ideal_double file_class_vocabulary) = [0, 0, 1] \<and>
   map_sum id (\<lambda>v'. (map classIndex (m_vocabularyStorage v'), m_classWords v'))
     (AssignWordsToClasses ideal_double file_class_vocabulary) = Inr ([0, 0, 1], [ [0, 1], [2] ]) \<and>
   sorted (map classIndex (assign_class_ids ideal_double file_class_vocabulary)) \<and>
   classIndex ` set (assign_class_ids ideal_double file_class_vocabulary) =
     {0..<int (card (classIndex ` set (m_vocabularyStorage file_class_vocabulary)))}"
proof -
  have h1: "m_useClassFile file_class_vocabulary"
    by (rule file_class_storage)
  have cs: "map classIndex (m_vocabularyStorage file_class_vocabulary) = [7, 7, 3]"
    by (simp add: file_class_storage)
  have c: "contiguous [7, 7, 3]"
    by (simp add: contiguous_def less_Suc_eq numeral_3_eq_3)
  have h2: "contiguous (map classIndex (m_vocabularyStorage file_class_vocabulary))"
    unfolding cs by (rule c)
  have h3: "m_vocabularyStorage file_class_vocabulary \<noteq> [] \<longrightarrow>
            classIndex (m_vocabularyStorage file_class_vocabulary ! 0) \<noteq> - 1"
    by (simp add: file_class_storage)
  note t = external_classes_renumbered[OF h1 h2 h3, of ideal_double, unfolded Let_def]
  have ids: "map classIndex (assign_class_ids ideal_double file_class_vocabulary) = [0, 0, 1]"
    by (simp add: assign_class_ids_def file_class_storage)
  have ret: "map_sum id (\<lambda>v'. (map classIndex (m_vocabularyStorage v'), m_classWords v'))
     (AssignWordsToClasses ideal_double file_class_vocabulary) = Inr ([0, 0, 1], [ [0, 1], [2] ])"
    by (simp add: AssignWordsToClasses_def assign_class_ids_def file_class_storage
        file_class_vocabulary_def empty_vocabulary_def in_range_def numeral_2_eq_2)
  show ?thesis
    using h1 cs c ids ret t by blast
qed


subsection \<open>Properties of saving and loading\<close>

declare digits.simps [simp del]

lemma replicate_numeral: "replicate (numeral k) x = x # replicate (pred_numeral k) x"
  by (simp add: numeral_eq_Suc)

lemmas io_defs = replicate_numeral digits.simps Save_def pad_def print_d_def digit_char_def c_str_def
  nul_def vocabulary_header_def tab_def newline_def after_header_def Vocabulary_from_file_def
  load_row_def scan_d_def scan_s_def isspace_def isdigit_def digit_val_def Let_def

lemma digit_char_props:
  assumes "d < 10"
  shows "isdigit (digit_char d)" and "digit_val (digit_char d) = d"
    and "\<not> isspace (digit_char d)" and "digit_char d \<noteq> CHR ''-''" and "digit_char d \<noteq> CHR ''+''"
proof -
  from assms have "d \<in> {0, 1, 2, 3, 4, 5, 6, 7, 8, 9}" by auto
  then show "isdigit (digit_char d)" and "digit_val (digit_char d) = d"
    and "\<not> isspace (digit_char d)" and "digit_char d \<noteq> CHR ''-''" and "digit_char d \<noteq> CHR ''+''"
    by (auto simp: digit_char_def isdigit_def digit_val_def isspace_def)
qed

lemma digits_all: "c \<in> set (digits n) \<Longrightarrow> \<exists>d < 10. c = digit_char d"
proof (induction n rule: digits.induct)
  case (1 n)
  show ?case
  proof (cases "n < 10")
    case True
    then show ?thesis using "1.prems" by (subst (asm) digits.simps) auto
  next
    case False
    from "1.prems" have "c \<in> set (digits (n div 10)) \<or> c = digit_char (n mod 10)"
      using False by (subst (asm) digits.simps) auto
    then show ?thesis
    proof
      assume "c \<in> set (digits (n div 10))"
      then show ?thesis using "1.IH" False by simp
    next
      assume "c = digit_char (n mod 10)"
      moreover have "n mod 10 < 10" by simp
      ultimately show ?thesis by blast
    qed
  qed
qed

lemma digits_nonempty: "digits n \<noteq> []"
  by (subst digits.simps) simp

lemma digits_isdigit: "c \<in> set (digits n) \<Longrightarrow> isdigit c"
  using digits_all digit_char_props(1) by blast

lemma digits_value: "foldl (\<lambda>a c. 10 * a + digit_val c) 0 (digits n) = n"
proof (induction n rule: digits.induct)
  case (1 n)
  show ?case
  proof (cases "n < 10")
    case True
    then show ?thesis by (subst digits.simps) (simp add: digit_char_props(2))
  next
    case False
    then show ?thesis
      using "1.IH" by (subst digits.simps) (simp add: digit_char_props(2))
  qed
qed

lemma digits_head: "\<exists>c cs. digits n = c # cs \<and> isdigit c \<and> \<not> isspace c \<and> c \<noteq> CHR ''-'' \<and> c \<noteq> CHR ''+''"
proof (cases "digits n")
  case Nil
  then show ?thesis using digits_nonempty by simp
next
  case (Cons c cs)
  then have "c \<in> set (digits n)" by simp
  then obtain d where "d < 10" "c = digit_char d" using digits_all by blast
  then show ?thesis using Cons digit_char_props by auto
qed

lemma takeWhile_stop:
  "(\<forall>x \<in> set xs. P x) \<Longrightarrow> (ys = [] \<or> \<not> P (hd ys)) \<Longrightarrow> takeWhile P (xs @ ys) = xs"
  by (cases ys) (auto simp: takeWhile_append2)

lemma dropWhile_stop:
  "(\<forall>x \<in> set xs. P x) \<Longrightarrow> (ys = [] \<or> \<not> P (hd ys)) \<Longrightarrow> dropWhile P (xs @ ys) = ys"
  by (cases ys) (auto simp: dropWhile_append2)

lemma scan_d_digits:
  assumes "rest = [] \<or> \<not> isdigit (hd rest)"
  shows "takeWhile isdigit (digits m @ rest) = digits m"
    and "dropWhile isdigit (digits m @ rest) = rest"
proof -
  have "\<forall>c \<in> set (digits m). isdigit c" using digits_isdigit by blast
  then show "takeWhile isdigit (digits m @ rest) = digits m"
    and "dropWhile isdigit (digits m @ rest) = rest"
    using assms by (rule takeWhile_stop, rule dropWhile_stop)
qed

lemma scan_d_print_d:
  assumes ws: "\<forall>c \<in> set ws. isspace c" and rest: "rest = [] \<or> \<not> isdigit (hd rest)"
  shows "scan_d (ws @ print_d i @ rest) = Some (i, rest)"
proof (cases "i < 0")
  case True
  let ?m = "nat (- i)"
  have p: "print_d i = CHR ''-'' # digits ?m"
    using True by (simp add: print_d_def)
  have "\<not> isspace CHR ''-''" by (simp add: isspace_def)
  then have d: "dropWhile isspace (ws @ print_d i @ rest) = CHR ''-'' # digits ?m @ rest"
    using ws by (simp add: p dropWhile_append2)
  show ?thesis
    unfolding scan_d_def d
    using True by (simp add: scan_d_digits[OF rest] digits_nonempty digits_value)
next
  case False
  let ?m = "nat i"
  have p: "print_d i = digits ?m"
    using False by (simp add: print_d_def)
  obtain c cs where c: "digits ?m = c # cs" "isdigit c" "\<not> isspace c" "c \<noteq> CHR ''-''" "c \<noteq> CHR ''+''"
    using digits_head by blast
  have d: "dropWhile isspace (ws @ print_d i @ rest) = digits ?m @ rest"
    using ws c by (simp add: p dropWhile_append2)
  have sign: "(case digits ?m @ rest of
                 [] \<Rightarrow> (False, digits ?m @ rest)
               | c # r \<Rightarrow> if c = CHR ''-'' then (True, r)
                          else if c = CHR ''+'' then (False, r) else (False, digits ?m @ rest)) =
              (False, digits ?m @ rest)"
    using c by simp
  have v: "int (foldl (\<lambda>a c. 10 * a + digit_val c) 0 (digits ?m)) = i"
    using False by (simp add: digits_value)
  show ?thesis
    unfolding scan_d_def Let_def d sign
    by (simp add: scan_d_digits[OF rest] v digits_nonempty)
qed

lemma isspace_tab [simp]: "isspace tab" and isspace_newline [simp]: "isspace newline"
  and isspace_blank [simp]: "isspace CHR '' ''"
  and isdigit_tab [simp]: "\<not> isdigit tab" and isdigit_newline [simp]: "\<not> isdigit newline"
  by (simp_all add: isspace_def isdigit_def tab_def newline_def)

lemma scan_d_pad:
  assumes "\<forall>c \<in> set ws. isspace c" and "rest = [] \<or> \<not> isdigit (hd rest)"
  shows "scan_d (ws @ pad w (print_d i) @ rest) = Some (i, rest)"
proof -
  let ?ws = "ws @ replicate (w - length (print_d i)) CHR '' ''"
  have "\<forall>c \<in> set ?ws. isspace c" using assms(1) by auto
  from scan_d_print_d[OF this assms(2), of i] show ?thesis
    by (simp add: pad_def)
qed

lemma scan_s_word:
  assumes "\<forall>c \<in> set ws. isspace c" and "w \<noteq> []" and "\<forall>c \<in> set w. \<not> isspace c" and "isspace r"
  shows "scan_s (ws @ w @ r # rest) = Some (w, r # rest)"
proof -
  obtain c cs where c: "w = c # cs" using assms(2) by (cases w) auto
  then have nc: "\<not> isspace c" using assms(3) by simp
  have d: "dropWhile isspace (ws @ w @ r # rest) = w @ r # rest"
    using assms(1) nc by (simp add: c dropWhile_append2)
  have t: "takeWhile (\<lambda>c. \<not> isspace c) (w @ r # rest) = w"
    using assms(3,4) by (simp add: takeWhile_stop)
  have r: "dropWhile (\<lambda>c. \<not> isspace c) (w @ r # rest) = r # rest"
    using assms(3,4) by (simp add: dropWhile_stop)
  show ?thesis
    unfolding scan_s_def d Let_def using assms(2) by (simp add: t r)
qed

lemma c_str_plain: "nul \<notin> set w \<Longrightarrow> c_str w = w"
  by (auto simp: c_str_def takeWhile_eq_all_conv)

lemma load_row_saved:
  assumes "\<forall>c \<in> set ws. isspace c" and "plain_word (word e)"
  shows "load_row ops a (ws @ save_rows a (e # es) @ rest) v =
     Inr (v\<lparr>m_vocabularyStorage := m_vocabularyStorage v @ [e\<lparr>prob := d_of_int ops 0\<rparr>],
           m_mapWord2Index := (m_mapWord2Index v)(word e \<mapsto> a),
           m_mapIndex2Word := (m_mapIndex2Word v)(a \<mapsto> word e)\<rparr>,
          newline # save_rows (a + 1) es @ rest)"
proof -
  let ?tail = "newline # save_rows (a + 1) es @ rest"
  let ?f3 = "tab # print_d (classIndex e) @ ?tail"
  let ?f2 = "tab # word e @ ?f3"
  let ?f1 = "tab # pad 10 (print_d (cn e)) @ ?f2"
  have w: "word e \<noteq> []" "length (word e) < 2048" "\<forall>c \<in> set (word e). \<not> isspace c"
    "nul \<notin> set (word e)"
    using assms(2) by (auto simp: plain_word_def)
  have row: "ws @ save_rows a (e # es) @ rest = ws @ pad 6 (print_d a) @ ?f1"
    by (simp add: c_str_plain[OF w(4)])
  have 1: "scan_d (ws @ pad 6 (print_d a) @ ?f1) = Some (a, ?f1)"
    using assms(1) by (rule scan_d_pad) simp
  have 2: "scan_d ?f1 = Some (cn e, ?f2)"
    using scan_d_pad[of "[tab]" ?f2 10 "cn e"] by simp
  have 3: "scan_s ?f2 = Some (word e, ?f3)"
    using scan_s_word[of "[tab]" "word e" tab "print_d (classIndex e) @ ?tail"] w by simp
  have 4: "scan_d ?f3 = Some (classIndex e, ?tail)"
    using scan_d_print_d[of "[tab]" ?tail "classIndex e"] by simp
  have e: "\<lparr>word = word e, cn = cn e, prob = d_of_int ops 0, classIndex = classIndex e\<rparr> =
           e\<lparr>prob := d_of_int ops 0\<rparr>"
    by simp
  show ?thesis
    unfolding row load_row_def using w(2)
    by (simp add: 1 2 3 4 c_str_plain[OF w(4)] e Let_def del: save_rows.simps)
qed

lemma load_rows_saved:
  assumes "\<forall>e \<in> set es. plain_word (word e)" and "\<forall>c \<in> set ws. isspace c"
  shows "\<exists>fi'. load_rows ops (length es) a (ws @ save_rows a es @ rest) v =
     Inr (v\<lparr>m_vocabularyStorage := m_vocabularyStorage v @ map (\<lambda>e. e\<lparr>prob := d_of_int ops 0\<rparr>) es,
            m_mapWord2Index := fst (rebuild_maps a es (m_mapWord2Index v, m_mapIndex2Word v)),
            m_mapIndex2Word := snd (rebuild_maps a es (m_mapWord2Index v, m_mapIndex2Word v))\<rparr>, fi')"
  using assms
proof (induction es arbitrary: a ws v)
  case Nil
  then show ?case by simp
next
  case (Cons e es)
  let ?v = "v\<lparr>m_vocabularyStorage := m_vocabularyStorage v @ [e\<lparr>prob := d_of_int ops 0\<rparr>],
           m_mapWord2Index := (m_mapWord2Index v)(word e \<mapsto> a),
           m_mapIndex2Word := (m_mapIndex2Word v)(a \<mapsto> word e)\<rparr>"
  have e: "plain_word (word e)" and es: "\<forall>x \<in> set es. plain_word (word x)"
    using Cons.prems(1) by simp_all
  have row: "load_row ops a (ws @ save_rows a (e # es) @ rest) v =
      Inr (?v, [newline] @ save_rows (a + 1) es @ rest)"
    using load_row_saved[OF Cons.prems(2) e, of ops a es rest v] by simp
  have nl: "\<forall>c \<in> set [newline]. isspace c" by simp
  from Cons.IH[OF es nl, of "a + 1" ?v]
  obtain fi' where
    "load_rows ops (length es) (a + 1) ([newline] @ save_rows (a + 1) es @ rest) ?v =
       Inr (?v\<lparr>m_vocabularyStorage := m_vocabularyStorage ?v @ map (\<lambda>e. e\<lparr>prob := d_of_int ops 0\<rparr>) es,
            m_mapWord2Index := fst (rebuild_maps (a + 1) es (m_mapWord2Index ?v, m_mapIndex2Word ?v)),
            m_mapIndex2Word := snd (rebuild_maps (a + 1) es (m_mapWord2Index ?v, m_mapIndex2Word ?v))\<rparr>, fi')"
    by blast
  then have "load_rows ops (length (e # es)) a (ws @ save_rows a (e # es) @ rest) v =
     Inr (v\<lparr>m_vocabularyStorage := m_vocabularyStorage v @ map (\<lambda>e. e\<lparr>prob := d_of_int ops 0\<rparr>) (e # es),
            m_mapWord2Index := fst (rebuild_maps a (e # es) (m_mapWord2Index v, m_mapIndex2Word v)),
            m_mapIndex2Word := snd (rebuild_maps a (e # es) (m_mapWord2Index v, m_mapIndex2Word v))\<rparr>, fi')"
    using row by (simp del: save_rows.simps)
  then show ?case by blast
qed

lemma rebuild_maps_other:
  "w \<notin> word ` set es \<Longrightarrow> fst (rebuild_maps a es m) w = fst m w"
  by (induction es arbitrary: a m) auto

lemma rebuild_maps_index:
  "distinct (map word es) \<Longrightarrow> i < length es \<Longrightarrow>
   fst (rebuild_maps a es m) (word (es ! i)) = Some (a + int i)"
proof (induction es arbitrary: a m i)
  case Nil
  then show ?case by simp
next
  case (Cons e es)
  show ?case
  proof (cases i)
    case 0
    have "word e \<notin> word ` set es" using Cons.prems(1) by simp
    then show ?thesis using 0 by (simp add: rebuild_maps_other)
  next
    case (Suc k)
    then have "k < length es" and "distinct (map word es)" using Cons.prems by simp_all
    from Cons.IH[OF this(2,1)] show ?thesis using Suc by simp
  qed
qed

lemma in_sync_distinct:
  assumes "\<forall>i < length s. (m :: string \<rightharpoonup> int) (word (s ! i)) = Some (int i)"
  shows "distinct (map word s)"
  unfolding distinct_conv_nth
proof (intro allI impI)
  fix i j assume "i < length (map word s)" "j < length (map word s)" "i \<noteq> j"
  then have "m (word (s ! i)) = Some (int i)" "m (word (s ! j)) = Some (int j)" "int i \<noteq> int j"
    using assms by simp_all
  then have "word (s ! i) \<noteq> word (s ! j)" by auto
  then show "map word s ! i \<noteq> map word s ! j"
    using \<open>i < length (map word s)\<close> \<open>j < length (map word s)\<close> by simp
qed

lemma after_header_Save: "after_header (Save v) = save_rows 0 (m_vocabularyStorage v)"
  by (simp add: after_header_def Save_def)

text \<open>
  Claim C8, as the code has it. Let every word of the vocabulary be plain (not empty,
  shorter than 2048 characters, without white space and NUL) and let the word-to-index
  map give each word of the vector its index. When the text that \<open>Save\<close> writes is read
  back from the position after the header line, with the size of the vocabulary as
  \<open>sizeVocabulary\<close> and whatever follows in the file, the constructor succeeds, and for
  every index the new vocabulary has the same word, count and class at this index and
  \<open>SearchWordInVocabulary\<close> gives the same result for the word as before.
\<close>

theorem save_load_roundtrip:
  assumes "\<forall>e \<in> set (m_vocabularyStorage v). plain_word (word e)"
    and "\<forall>i < length (m_vocabularyStorage v).
           m_mapWord2Index v (word (m_vocabularyStorage v ! i)) = Some (int i)"
  shows "\<exists>v'. Vocabulary_from_file ops numClasses useClassFile (after_header (Save v) @ rest)
                (GetVocabularySize v) = Inr v' \<and>
     m_vocabularyStorage v' = map (\<lambda>e. e\<lparr>prob := d_of_int ops 0\<rparr>) (m_vocabularyStorage v) \<and>
     (\<forall>i < length (m_vocabularyStorage v).
        SearchWordInVocabulary v' (word (m_vocabularyStorage v ! i)) =
          SearchWordInVocabulary v (word (m_vocabularyStorage v ! i)) \<and>
        word (m_vocabularyStorage v' ! i) = word (m_vocabularyStorage v ! i) \<and>
        cn (m_vocabularyStorage v' ! i) = cn (m_vocabularyStorage v ! i) \<and>
        classIndex (m_vocabularyStorage v' ! i) = classIndex (m_vocabularyStorage v ! i))"
proof -
  let ?s = "m_vocabularyStorage v"
  let ?v0 = "empty_vocabulary numClasses useClassFile :: 'a Vocabulary"
  let ?v' = "?v0\<lparr>m_vocabularyStorage := m_vocabularyStorage ?v0 @ map (\<lambda>e. e\<lparr>prob := d_of_int ops 0\<rparr>) ?s,
            m_mapWord2Index := fst (rebuild_maps 0 ?s (m_mapWord2Index ?v0, m_mapIndex2Word ?v0)),
            m_mapIndex2Word := snd (rebuild_maps 0 ?s (m_mapWord2Index ?v0, m_mapIndex2Word ?v0))\<rparr>"
  have ws: "\<forall>c \<in> set ([]::string). isspace c" by simp
  from load_rows_saved[OF assms(1) ws, of ops 0 rest ?v0]
  obtain fi' where l: "load_rows ops (length ?s) 0 (save_rows 0 ?s @ rest) ?v0 = Inr (?v', fi')"
    by auto
  have r: "Vocabulary_from_file ops numClasses useClassFile (after_header (Save v) @ rest)
             (GetVocabularySize v) = Inr ?v'"
    by (simp add: Vocabulary_from_file_def GetVocabularySize_def after_header_Save l)
  have st: "m_vocabularyStorage ?v' = map (\<lambda>e. e\<lparr>prob := d_of_int ops 0\<rparr>) ?s"
    by (simp add: empty_vocabulary_def)
  have d: "distinct (map word ?s)"
    using assms(2) by (rule in_sync_distinct)
  have "\<forall>i < length ?s.
        SearchWordInVocabulary ?v' (word (?s ! i)) = SearchWordInVocabulary v (word (?s ! i)) \<and>
        word (m_vocabularyStorage ?v' ! i) = word (?s ! i) \<and>
        cn (m_vocabularyStorage ?v' ! i) = cn (?s ! i) \<and>
        classIndex (m_vocabularyStorage ?v' ! i) = classIndex (?s ! i)"
  proof (intro allI impI)
    fix i assume i: "i < length ?s"
    have "m_mapWord2Index ?v' (word (?s ! i)) = Some (int i)"
      using rebuild_maps_index[OF d i, of 0] by simp
    moreover have "m_mapWord2Index v (word (?s ! i)) = Some (int i)"
      using assms(2) i by simp
    ultimately have "SearchWordInVocabulary ?v' (word (?s ! i)) = SearchWordInVocabulary v (word (?s ! i))"
      by (simp add: SearchWordInVocabulary_def)
    then show "SearchWordInVocabulary ?v' (word (?s ! i)) = SearchWordInVocabulary v (word (?s ! i)) \<and>
        word (m_vocabularyStorage ?v' ! i) = word (?s ! i) \<and>
        cn (m_vocabularyStorage ?v' ! i) = cn (?s ! i) \<and>
        classIndex (m_vocabularyStorage ?v' ! i) = classIndex (?s ! i)"
      using i by (simp add: st)
  qed
  then show ?thesis using r st by blast
qed

text \<open>
  Read from its very beginning, the text of \<open>Save\<close> starts with the header line, where the
  first \<^verbatim>\<open>%d\<close> finds no number: the position of the stream has to be after the header.
\<close>

lemma load_header_fails:
  "0 < sizeVocabulary \<Longrightarrow>
   Vocabulary_from_file ops numClasses useClassFile (Save v @ rest) sizeVocabulary = Inl ScanFailed"
proof -
  assume "0 < sizeVocabulary"
  then obtain n where n: "nat sizeVocabulary = Suc n" by (cases "nat sizeVocabulary") auto
  have "scan_d (Save v @ rest) = None"
    by (simp add: Save_def vocabulary_header_def scan_d_def isspace_def isdigit_def newline_def)
  then show ?thesis
    using \<open>0 < sizeVocabulary\<close> by (simp add: Vocabulary_from_file_def n load_row_def)
qed

lemma spaced_storage:
  "m_vocabularyStorage spaced_vocabulary = [\<lparr>word = ''a 7'', cn = 1, prob = 0, classIndex = 0\<rparr>]"
  "SearchWordInVocabulary spaced_vocabulary ''a 7'' = 0"
  by (simp_all add: spaced_vocabulary_def eval_defs ideal_double_def)

text \<open>
  Claim C8 says that saving and loading gives back every vocabulary. The columns of the
  file are separated by white space, and a word is read up to the next white space: the
  vocabulary with the one word \<^verbatim>\<open>a 7\<close> (index 0, count 1, class 0) comes back, read from after
  the header, with the word \<^verbatim>\<open>a\<close> of class 7, and \<open>SearchWordInVocabulary\<close> no longer finds
  \<^verbatim>\<open>a 7\<close>.
\<close>

theorem save_load_word_with_space:
  "map (\<lambda>e. (word e, cn e, classIndex e)) (m_vocabularyStorage spaced_vocabulary) = [(''a 7'', 1, 0)] \<and>
   SearchWordInVocabulary spaced_vocabulary ''a 7'' = 0 \<and>
   map_sum id (\<lambda>v. (map (\<lambda>e. (word e, cn e, classIndex e)) (m_vocabularyStorage v),
                     SearchWordInVocabulary v ''a 7''))
     (Vocabulary_from_file ideal_double 2 False (after_header (Save spaced_vocabulary)) 1) =
     Inr ([(''a'', 1, 7)], - 1)"
proof -
  have "map_sum id (\<lambda>v. (map (\<lambda>e. (word e, cn e, classIndex e)) (m_vocabularyStorage v),
                     SearchWordInVocabulary v ''a 7''))
     (Vocabulary_from_file ideal_double 2 False (after_header (Save spaced_vocabulary)) 1) =
     Inr ([(''a'', 1, 7)], - 1)"
    by (simp add: io_defs spaced_storage(1) empty_vocabulary_def ideal_double_def
        SearchWordInVocabulary_def)
  then show ?thesis
    by (simp add: spaced_storage)
qed

lemma nine_token_index:
  "map (m_mapWord2Index nine_token_vocabulary) [''</s>'', ''a'', ''b''] = [Some 0, Some 1, Some 2]"
  by (simp add: nine_token_vocabulary_def eval_defs ideal_double_def)

theorem save_load_roundtrip_witness:
  "plain_word ''</s>'' \<and> plain_word ''a'' \<and> plain_word ''b'' \<and>
   map (\<lambda>e. (word e, cn e, classIndex e)) (m_vocabularyStorage nine_token_vocabulary) =
     [(''</s>'', 4, 0), (''a'', 4, 0), (''b'', 1, 0)] \<and>
   map (SearchWordInVocabulary nine_token_vocabulary) [''</s>'', ''a'', ''b''] = [0, 1, 2] \<and>
   map_sum id (\<lambda>v. (map (\<lambda>e. (word e, cn e, classIndex e)) (m_vocabularyStorage v),
                     map (SearchWordInVocabulary v) [''</s>'', ''a'', ''b'']))
     (Vocabulary_from_file ideal_double 2 False (after_header (Save nine_token_vocabulary)) 3) =
     Inr ([(''</s>'', 4, 0), (''a'', 4, 0), (''b'', 1, 0)], [0, 1, 2])"
proof -
  let ?v = nine_token_vocabulary
  have p: "plain_word ''</s>''" "plain_word ''a''" "plain_word ''b''"
    by (simp_all add: plain_word_def isspace_def nul_def)
  have h1: "\<forall>e \<in> set (m_vocabularyStorage ?v). plain_word (word e)"
    using p by (simp add: nine_token_storage)
  have ix: "map (m_mapWord2Index ?v) [''</s>'', ''a'', ''b''] = [Some 0, Some 1, Some 2]"
    by (rule nine_token_index)
  have h2: "\<forall>i < length (m_vocabularyStorage ?v).
           m_mapWord2Index ?v (word (m_vocabularyStorage ?v ! i)) = Some (int i)"
    using ix by (simp add: nine_token_storage less_Suc_eq numeral_3_eq_3)
  have sz: "GetVocabularySize ?v = 3"
    by (simp add: GetVocabularySize_def nine_token_storage)
  have se: "map (SearchWordInVocabulary ?v) [''</s>'', ''a'', ''b''] = [0, 1, 2]"
    using ix by (simp add: SearchWordInVocabulary_def)
  from save_load_roundtrip[OF h1 h2, of ideal_double 2 False "[]"]
  obtain v' where v': "Vocabulary_from_file ideal_double 2 False (after_header (Save ?v)) 3 = Inr v'"
    and st: "m_vocabularyStorage v' = map (\<lambda>e. e\<lparr>prob := d_of_int ideal_double 0\<rparr>) (m_vocabularyStorage ?v)"
    and ss: "\<forall>i < length (m_vocabularyStorage ?v).
        SearchWordInVocabulary v' (word (m_vocabularyStorage ?v ! i)) =
          SearchWordInVocabulary ?v (word (m_vocabularyStorage ?v ! i))"
    unfolding sz by auto
  have "map (SearchWordInVocabulary v') [''</s>'', ''a'', ''b''] =
        map (SearchWordInVocabulary ?v) [''</s>'', ''a'', ''b'']"
    using ss[rule_format, of 0] ss[rule_format, of 1] ss[rule_format, of 2]
    by (simp add: nine_token_storage)
  then have s': "map (SearchWordInVocabulary v') [''</s>'', ''a'', ''b''] = [0, 1, 2]"
    using se by simp
  have c: "map (\<lambda>e. (word e, cn e, classIndex e)) (m_vocabularyStorage v') =
           [(''</s>'', 4, 0), (''a'', 4, 0), (''b'', 1, 0)]"
    by (simp add: st nine_token_storage)
  have c0: "map (\<lambda>e. (word e, cn e, classIndex e)) (m_vocabularyStorage ?v) =
           [(''</s>'', 4, 0), (''a'', 4, 0), (''b'', 1, 0)]"
    by (simp add: nine_token_storage)
  show ?thesis
    using p c0 se s' by (simp add: v' c)
qed


end
